theory Spec2Isabelle
  imports Main
begin

section \<open>Strings and line-delimited files\<close>

text \<open>
  The contents of \<^verbatim>\<open>data.txt\<close> and \<^verbatim>\<open>proxy.txt\<close> are JavaScript strings: sequences of
  UTF-16 code units, here natural numbers. \<^verbatim>\<open>String.prototype.trim\<close> strips the code units
  of the ECMAScript productions WhiteSpace and LineTerminator, several of which lie beyond
  Latin-1, so the loaders are modelled on code units and not on bytes.
\<close>

type_synonym ustring = "nat list"

definition isWhiteSpace :: "nat \<Rightarrow> bool" where
  "isWhiteSpace c \<longleftrightarrow>
     c = 9 \<or> c = 10 \<or> c = 11 \<or> c = 12 \<or> c = 13 \<or> c = 32 \<or> c = 160 \<or> c = 5760 \<or>
     (8192 \<le> c \<and> c \<le> 8202) \<or> c = 8232 \<or> c = 8233 \<or> c = 8239 \<or> c = 8287 \<or>
     c = 12288 \<or> c = 65279"

text \<open>\<^verbatim>\<open>s.trim()\<close>: white space removed from both ends.\<close>

definition trim :: "ustring \<Rightarrow> ustring" where
  "trim s = rev (dropWhile isWhiteSpace (rev (dropWhile isWhiteSpace s)))"

text \<open>
  \<^verbatim>\<open>s.split(sep)\<close> for a separator of one code unit: the pieces between the separators,
  so that the empty string gives one empty piece.
\<close>

fun split_str :: "ustring \<Rightarrow> nat \<Rightarrow> ustring list" where
  "split_str [] sep = [[]]"
| "split_str (c # cs) sep =
     (if c = sep then [] # split_str cs sep
      else (case split_str cs sep of
              [] \<Rightarrow> [[c]]
            | l # ls \<Rightarrow> (c # l) # ls))"

text \<open>\<^verbatim>\<open>s.startsWith(p)\<close>.\<close>

definition startsWith :: "ustring \<Rightarrow> ustring \<Rightarrow> bool" where
  "startsWith s p \<longleftrightarrow> take (length p) s = p"

text \<open>Code units of an ASCII literal of the source (\<^verbatim>\<open>'#'\<close> is 35, \<^verbatim>\<open>'\n'\<close> is 10).\<close>

definition ascii :: "string \<Rightarrow> ustring" where
  "ascii s = map of_char s"

text \<open>
  What the loaders find on disk: \<^verbatim>\<open>fs.pathExists\<close> answers false (\<open>Missing\<close>), or the
  file exists and \<^verbatim>\<open>fs.readFile\<close> throws (\<open>Unreadable\<close>, with the error's message), or
  the read gives the content.
\<close>

datatype file_state = Missing | Unreadable string | Content ustring

text \<open>
  The settings of \<^verbatim>\<open>config.json\<close> that decide what the program does. The numbers are
  integers; \<^verbatim>\<open>timeoutMs\<close> 0 stands for no timeout.
\<close>

record config =
  useProxy :: bool
  delayBetweenAccounts :: int
  maxRetries :: nat
  retryDelay :: int
  timeoutMs :: int
  nextRunDelayHours :: int

text \<open>
  \<^verbatim>\<open>loadTokens\<close> (index.js, 74-89). \<open>Inl n\<close> is \<^verbatim>\<open>process.exit(n)\<close>: both the missing file
  and the failing read end the process with status 1.
\<close>

definition loadTokens :: "file_state \<Rightarrow> nat + ustring list" where
  "loadTokens f =
     (case f of
        Missing \<Rightarrow> Inl 1
      | Unreadable msg \<Rightarrow> Inl 1
      | Content data \<Rightarrow>
          Inr (filter (\<lambda>line. line \<noteq> [] \<and> \<not> startsWith line [35])
                 (map trim (split_str data 10))))"

text \<open>
  \<^verbatim>\<open>loadProxies\<close> (index.js, 92-109): nothing is read unless \<^verbatim>\<open>config.useProxy\<close>, and a
  missing or unreadable file gives the empty list.
\<close>

definition loadProxies :: "config \<Rightarrow> file_state \<Rightarrow> ustring list" where
  "loadProxies cfg f =
     (if \<not> useProxy cfg then []
      else (case f of
              Missing \<Rightarrow> []
            | Unreadable msg \<Rightarrow> []
            | Content data \<Rightarrow>
                filter (\<lambda>line. line \<noteq> [] \<and> \<not> startsWith line [35])
                  (map trim (split_str data 10))))"

section \<open>The HTTP client and its retry options\<close>

datatype http_method = GET | POST

datatype endpoint = statusEndpoint | checkinEndpoint

text \<open>
  What a rejected request carries: \<^verbatim>\<open>error.response.status\<close> when a response came back
  (axios rejects every status outside 2xx), \<^verbatim>\<open>error.code\<close> and \<^verbatim>\<open>error.message\<close>.
\<close>

datatype axios_error =
  AxiosError (response_status: "nat option") (error_code: "string option") (error_message: string)

text \<open>
  What the program reads of a fulfilled response: \<^verbatim>\<open>response.data.code\<close>, taken to be an
  integer, and for the status endpoint the outcome of reading the account fields
  (index.js, 159-164): a \<^verbatim>\<open>TypeError\<close> with its message when a field is absent, else the
  truth value of \<^verbatim>\<open>actsMap["Daily Check-in"].done\<close>.
\<close>

datatype body = Body (code: int) (dailyCheckin: "string + bool")

text \<open>The values the program throws and catches; only \<^verbatim>\<open>message\<close> is ever read.\<close>

datatype js_error = Axios axios_error | Error string | TypeError string

fun message :: "js_error \<Rightarrow> string" where
  "message (Axios e) = error_message e"
| "message (Error msg) = msg"
| "message (TypeError msg) = msg"

text \<open>
  The remote service and the network are an oracle: for the \<open>t\<close>-th request put on the
  wire since the program started, its outcome and the milliseconds it took (what the retry
  interceptor measures with \<^verbatim>\<open>Date.now()\<close>). The program is sequential and deterministic,
  so quantifying over all oracles covers every behaviour of the service.
\<close>

type_synonym server = "nat \<Rightarrow> (axios_error + body) \<times> int"

text \<open>
  What the program takes from its dependencies, as parameters of the model: the two
  predicates of axios-retry that \<^verbatim>\<open>retryCondition\<close> calls, and the error that
  \<^verbatim>\<open>new HttpsProxyAgent(proxy)\<close> throws for a proxy string, if any (the constructor of
  https-proxy-agent 7 parses the string with \<^verbatim>\<open>new URL\<close>, which throws a \<^verbatim>\<open>TypeError\<close> on a
  string that is not a URL).
\<close>

record library =
  isNetworkError :: "axios_error \<Rightarrow> bool"
  isRetryableError :: "axios_error \<Rightarrow> bool"
  newHttpsProxyAgent :: "ustring \<Rightarrow> js_error option"

text \<open>A JavaScript value that may be \<^verbatim>\<open>undefined\<close> or \<^verbatim>\<open>null\<close>.\<close>

datatype 'a jsval = Undefined | Null | Value 'a

text \<open>\<^verbatim>\<open>xs[i]\<close>: reading past the end of an array gives \<^verbatim>\<open>undefined\<close>.\<close>

definition index :: "'a list \<Rightarrow> nat \<Rightarrow> 'a jsval" where
  "index xs i = (if i < length xs then Value (xs ! i) else Undefined)"

text \<open>
  \<^verbatim>\<open>createAxiosInstance\<close> (index.js, 112-148): the client carries the token header, the
  timeout \<^verbatim>\<open>config.timeoutMs\<close> and, when \<^verbatim>\<open>proxy\<close> is truthy (a non-empty string), an agent
  for that proxy. \<open>Inl\<close> is the error thrown when the agent cannot be constructed.
\<close>

record client =
  token :: ustring
  timeout :: int
  httpsAgent :: "ustring option"

definition createAxiosInstance ::
  "library \<Rightarrow> config \<Rightarrow> ustring \<Rightarrow> ustring jsval \<Rightarrow> js_error + client" where
  "createAxiosInstance lib cfg tok proxy =
     (case proxy of
        Value p \<Rightarrow>
          if p \<noteq> [] then
            (case newHttpsProxyAgent lib p of
               Some err \<Rightarrow> Inl err
             | None \<Rightarrow> Inr \<lparr>token = tok, timeout = timeoutMs cfg, httpsAgent = Some p\<rparr>)
          else Inr \<lparr>token = tok, timeout = timeoutMs cfg, httpsAgent = None\<rparr>
      | Null \<Rightarrow> Inr \<lparr>token = tok, timeout = timeoutMs cfg, httpsAgent = None\<rparr>
      | Undefined \<Rightarrow> Inr \<lparr>token = tok, timeout = timeoutMs cfg, httpsAgent = None\<rparr>)"

text \<open>The \<^verbatim>\<open>retryDelay\<close> callback (index.js, 130-134).\<close>

definition retryDelayFn :: "config \<Rightarrow> nat \<Rightarrow> int" where
  "retryDelayFn cfg retryCount = 2 ^ retryCount * retryDelay cfg"

text \<open>The \<^verbatim>\<open>retryCondition\<close> callback (index.js, 135-140).\<close>

definition retryCondition :: "library \<Rightarrow> axios_error \<Rightarrow> bool" where
  "retryCondition lib err \<longleftrightarrow>
     isNetworkError lib err \<or> isRetryableError lib err \<or>
     (case response_status err of
        None \<Rightarrow> False
      | Some s \<Rightarrow> s \<in> set [429, 500, 502, 503, 504])"

text \<open>
  What one call of the client puts on the wire: \<open>Send cl m ep k\<close> is the request sent
  with retry count \<open>k\<close> (0 for the original request), \<open>Backoff k ms\<close> the wait of \<open>ms\<close>
  milliseconds before retry \<open>k\<close>.
\<close>

datatype http_event = Send client http_method endpoint nat | Backoff nat int

text \<open>
  A request through the interceptor that \<^verbatim>\<open>axiosRetry(instance, options)\<close> installs. A
  rejected request is sent again when fewer than \<^verbatim>\<open>retries\<close> retries were made and
  \<^verbatim>\<open>retryCondition(error)\<close> holds: the retry count is incremented and the delay is
  \<^verbatim>\<open>retryDelay(retryCount)\<close>. With a timeout set, the interceptor takes the time of the last
  attempt and the delay off the request's timeout and gives the retry up (rejecting with
  the error) when nothing is left; otherwise it waits the delay and sends the request
  with the reduced timeout. \<open>tmo\<close> is the timeout of the request at this attempt. The
  result is the last outcome, the events, and the oracle's next index.
\<close>

function request ::
  "library \<Rightarrow> config \<Rightarrow> server \<Rightarrow> client \<Rightarrow> http_method \<Rightarrow> endpoint \<Rightarrow> nat \<Rightarrow> int \<Rightarrow> nat \<Rightarrow>
   (axios_error + body) \<times> http_event list \<times> nat" where
  "request lib cfg srv cl m ep retryCount tmo t =
     (case srv t of
        (Inr b, lastRequestDuration) \<Rightarrow> (Inr b, [Send cl m ep retryCount], Suc t)
      | (Inl err, lastRequestDuration) \<Rightarrow>
          if retryCount < maxRetries cfg \<and> retryCondition lib err then
            (let delay = retryDelayFn cfg (Suc retryCount) in
             if tmo \<noteq> 0 then
               (if tmo - lastRequestDuration - delay \<le> 0
                then (Inl err, [Send cl m ep retryCount], Suc t)
                else (case request lib cfg srv cl m ep (Suc retryCount)
                             (tmo - lastRequestDuration - delay) (Suc t) of
                        (r, evs, t') \<Rightarrow>
                          (r, Send cl m ep retryCount # Backoff (Suc retryCount) delay # evs, t')))
             else (case request lib cfg srv cl m ep (Suc retryCount) tmo (Suc t) of
                     (r, evs, t') \<Rightarrow>
                       (r, Send cl m ep retryCount # Backoff (Suc retryCount) delay # evs, t')))
          else (Inl err, [Send cl m ep retryCount], Suc t))"
  by pat_completeness auto
termination
  by (relation "measure (\<lambda>(lib, cfg, srv, cl, m, ep, k, tmo, t). maxRetries cfg - k)") auto

declare request.simps [simp del]

section \<open>Processing one account\<close>

text \<open>The decimal form of an integer, as a template literal prints it.\<close>

function toDigits :: "nat \<Rightarrow> string" where
  "toDigits n =
     (if n < 10 then [char_of (48 + n)]
      else toDigits (n div 10) @ [char_of (48 + n mod 10)])"
  by pat_completeness auto
termination
  by (relation "measure id") auto

declare toDigits.simps [simp del]

definition toString :: "int \<Rightarrow> string" where
  "toString i = (if i < 0 then CHR ''-'' # toDigits (nat (- i)) else toDigits (nat i))"

text \<open>
  \<^verbatim>\<open>checkAccountStatus\<close> (index.js, 151-177): \<open>Inl\<close> is the error thrown (every error is
  logged and thrown again), \<open>Inr\<close> the field \<^verbatim>\<open>isCheckedIn\<close> of the value returned.
\<close>

definition checkAccountStatus ::
  "library \<Rightarrow> config \<Rightarrow> server \<Rightarrow> client \<Rightarrow> nat \<Rightarrow> nat \<Rightarrow>
   (js_error + bool) \<times> http_event list \<times> nat" where
  "checkAccountStatus lib cfg srv axios accountIndex t =
     (case request lib cfg srv axios GET statusEndpoint 0 (timeout axios) t of
        (Inl err, evs, t') \<Rightarrow> (Inl (Axios err), evs, t')
      | (Inr response, evs, t') \<Rightarrow>
          if code response \<noteq> 200
          then (Inl (Error (''Invalid response code: '' @ toString (code response))), evs, t')
          else (case dailyCheckin response of
                  Inl msg \<Rightarrow> (Inl (TypeError msg), evs, t')
                | Inr done \<Rightarrow> (Inr done, evs, t')))"

text \<open>\<^verbatim>\<open>performDailyCheckin\<close> (index.js, 180-199).\<close>

definition performDailyCheckin ::
  "library \<Rightarrow> config \<Rightarrow> server \<Rightarrow> client \<Rightarrow> nat \<Rightarrow> nat \<Rightarrow>
   (js_error + bool) \<times> http_event list \<times> nat" where
  "performDailyCheckin lib cfg srv axios accountIndex t =
     (case request lib cfg srv axios POST checkinEndpoint 0 (timeout axios) t of
        (Inl err, evs, t') \<Rightarrow> (Inl (Axios err), evs, t')
      | (Inr response, evs, t') \<Rightarrow>
          if code response \<noteq> 200
          then (Inl (Error (''Invalid response code: '' @ toString (code response))), evs, t')
          else (Inr True, evs, t'))"

text \<open>
  The object \<^verbatim>\<open>processAccount\<close> returns: \<^verbatim>\<open>{ success, alreadyCheckedIn }\<close> or
  \<^verbatim>\<open>{ success, error }\<close>; an absent field is \<open>None\<close>.
\<close>

record outcome =
  success :: bool
  alreadyCheckedIn :: "bool option"
  error :: "string option"

text \<open>
  \<^verbatim>\<open>processAccount\<close> (index.js, 202-234). The client is created before the \<^verbatim>\<open>try\<close>, so an
  error of \<^verbatim>\<open>createAxiosInstance\<close> is thrown to the caller (\<open>Inl\<close>); the \<^verbatim>\<open>catch\<close> turns every
  error thrown by the three steps into a failed outcome.
\<close>

definition processAccount ::
  "library \<Rightarrow> config \<Rightarrow> server \<Rightarrow> ustring \<Rightarrow> ustring jsval \<Rightarrow> nat \<Rightarrow> nat \<Rightarrow>
   (js_error + outcome) \<times> http_event list \<times> nat" where
  "processAccount lib cfg srv tok proxy accountIndex t =
     (case createAxiosInstance lib cfg tok proxy of
        Inl thrown \<Rightarrow> (Inl thrown, [], t)
      | Inr axiosInstance \<Rightarrow>
     (case checkAccountStatus lib cfg srv axiosInstance accountIndex t of
        (Inl err, e1, t1) \<Rightarrow>
          (Inr \<lparr>success = False, alreadyCheckedIn = None, error = Some (message err)\<rparr>, e1, t1)
      | (Inr isCheckedIn, e1, t1) \<Rightarrow>
          if isCheckedIn
          then (Inr \<lparr>success = True, alreadyCheckedIn = Some True, error = None\<rparr>, e1, t1)
          else
            (case performDailyCheckin lib cfg srv axiosInstance accountIndex t1 of
               (Inl err, e2, t2) \<Rightarrow>
                 (Inr \<lparr>success = False, alreadyCheckedIn = None, error = Some (message err)\<rparr>,
                  e1 @ e2, t2)
             | (Inr ok, e2, t2) \<Rightarrow>
                 (case checkAccountStatus lib cfg srv axiosInstance accountIndex t2 of
                    (Inl err, e3, t3) \<Rightarrow>
                      (Inr \<lparr>success = False, alreadyCheckedIn = None,
                            error = Some (message err)\<rparr>, e1 @ e2 @ e3, t3)
                  | (Inr verifyCheckedIn, e3, t3) \<Rightarrow>
                      if \<not> verifyCheckedIn
                      then (Inr \<lparr>success = False, alreadyCheckedIn = None,
                                 error = Some ''Verification failed''\<rparr>, e1 @ e2 @ e3, t3)
                      else (Inr \<lparr>success = True, alreadyCheckedIn = Some False,
                                 error = None\<rparr>, e1 @ e2 @ e3, t3)))))"

section \<open>The batch and the outer loop\<close>

text \<open>The tally of a batch (index.js, 244-249).\<close>

record results =
  total :: nat
  successful :: nat
  failed :: nat
  alreadyCheckedInCount :: nat

text \<open>
  What a batch does, in order: \<open>Account i e\<close> is the event \<open>e\<close> of the client of account
  \<open>i\<close> (1-based, the \<^verbatim>\<open>accountIndex\<close> of \<^verbatim>\<open>processAccount\<close>), \<open>Delay ms\<close> the timer between
  two accounts, \<open>NextRun ms\<close> the timer that starts \<^verbatim>\<open>main\<close> again.
\<close>

datatype event = Account nat http_event | Delay int | NextRun int

text \<open>
  The value of \<^verbatim>\<open>proxy\<close> for the token at index \<open>i\<close> (index.js, 254):
  \<^verbatim>\<open>config.useProxy && i < proxies.length ? proxies[i] : null\<close>.
\<close>

definition proxyFor :: "config \<Rightarrow> ustring list \<Rightarrow> nat \<Rightarrow> ustring jsval" where
  "proxyFor cfg proxies i = (if useProxy cfg \<and> i < length proxies then index proxies i else Null)"

text \<open>
  The \<^verbatim>\<open>for\<close> loop of \<^verbatim>\<open>processAllAccounts\<close> (index.js, 251-273), from index \<open>i\<close> with the
  tally so far. \<open>Inl\<close> is the error that \<^verbatim>\<open>processAccount\<close> threw, which ends the loop.
\<close>

function accountsLoop ::
  "library \<Rightarrow> config \<Rightarrow> server \<Rightarrow> ustring list \<Rightarrow> ustring list \<Rightarrow> nat \<Rightarrow> results \<Rightarrow> nat \<Rightarrow>
   (js_error + results) \<times> event list \<times> nat" where
  "accountsLoop lib cfg srv tokens proxies i res t =
     (if i < length tokens then
        (let tok = tokens ! i;
             proxy = proxyFor cfg proxies i
         in case processAccount lib cfg srv tok proxy (i + 1) t of
              (Inl thrown, evs, t1) \<Rightarrow> (Inl thrown, map (Account (i + 1)) evs, t1)
            | (Inr result, evs, t1) \<Rightarrow>
                (let res1 = (if success result
                             then (if alreadyCheckedIn result = Some True
                                   then res\<lparr>successful := successful res + 1,
                                            alreadyCheckedInCount := alreadyCheckedInCount res + 1\<rparr>
                                   else res\<lparr>successful := successful res + 1\<rparr>)
                             else res\<lparr>failed := failed res + 1\<rparr>);
                     pause = (if int i < int (length tokens) - 1
                              then [Delay (delayBetweenAccounts cfg)] else [])
                 in case accountsLoop lib cfg srv tokens proxies (i + 1) res1 t1 of
                      (r, evs2, t2) \<Rightarrow> (r, map (Account (i + 1)) evs @ pause @ evs2, t2)))
      else (Inr res, [], t))"
  by pat_completeness auto
termination
  by (relation "measure (\<lambda>(lib, cfg, srv, tokens, proxies, i, res, t). length tokens - i)") auto

declare accountsLoop.simps [simp del]

text \<open>
  The files as each batch run finds them, and the service. \<open>dataFile w r\<close> is
  \<^verbatim>\<open>data.txt\<close> at the \<open>r\<close>-th run.
\<close>

record world =
  service :: server
  dataFile :: "nat \<Rightarrow> file_state"
  proxyFile :: "nat \<Rightarrow> file_state"

text \<open>
  How an asynchronous function ends: it returns, it throws, or the process exits inside
  it with a status.
\<close>

datatype 'a completion = Returned 'a | Thrown js_error | Exited nat

text \<open>
  \<^verbatim>\<open>processAllAccounts\<close> (index.js, 237-276), at run \<open>run\<close>: how it ends, what it did until
  then, and the oracle's next index.
\<close>

definition processAllAccounts ::
  "library \<Rightarrow> config \<Rightarrow> world \<Rightarrow> nat \<Rightarrow> nat \<Rightarrow> results completion \<times> event list \<times> nat" where
  "processAllAccounts lib cfg w run t =
     (case loadTokens (dataFile w run) of
        Inl status \<Rightarrow> (Exited status, [], t)
      | Inr tokens \<Rightarrow>
          (let proxies = loadProxies cfg (proxyFile w run)
           in case accountsLoop lib cfg (service w) tokens proxies 0
                     \<lparr>total = length tokens, successful = 0, failed = 0,
                      alreadyCheckedInCount = 0\<rparr> t of
                (Inl thrown, evs, t') \<Rightarrow> (Thrown thrown, evs, t')
              | (Inr res, evs, t') \<Rightarrow> (Returned res, evs, t')))"

text \<open>
  \<^verbatim>\<open>main\<close> (index.js, 279-307) never returns to a caller: after a batch it sets a timer
  that calls \<^verbatim>\<open>main\<close> again, and its \<^verbatim>\<open>catch\<close> ends the process with status 1 when the batch
  throws. The model observes it for at most \<open>fuel\<close> batch runs and says whether the process
  is still running then or has exited with a status.
\<close>

datatype process_state = Running | Stopped nat

fun main ::
  "nat \<Rightarrow> library \<Rightarrow> config \<Rightarrow> world \<Rightarrow> nat \<Rightarrow> nat \<Rightarrow> process_state \<times> event list" where
  "main 0 lib cfg w run t = (Running, [])"
| "main (Suc fuel) lib cfg w run t =
     (case processAllAccounts lib cfg w run t of
        (Exited status, evs, t') \<Rightarrow> (Stopped status, evs)
      | (Thrown err, evs, t') \<Rightarrow> (Stopped 1, evs)
      | (Returned res, evs, t') \<Rightarrow>
          (let nextRunDelay = nextRunDelayHours cfg * 60 * 60 * 1000
           in case main fuel lib cfg w (Suc run) t' of
                (st, evs') \<Rightarrow> (st, evs @ NextRun nextRunDelay # evs')))"

section \<open>Notions used in the statements\<close>

text \<open>
  The lines of a file, said without \<^verbatim>\<open>split\<close>: what stands before the first line feed,
  then the lines of what follows it.
\<close>

function file_lines :: "ustring \<Rightarrow> ustring list" where
  "file_lines s =
     (case dropWhile (\<lambda>c. c \<noteq> 10) s of
        [] \<Rightarrow> [takeWhile (\<lambda>c. c \<noteq> 10) s]
      | nl # rest \<Rightarrow> takeWhile (\<lambda>c. c \<noteq> 10) s # file_lines rest)"
  by pat_completeness auto
termination
proof (relation "measure length")
  show "wf (measure length)" by simp
next
  fix s :: ustring and nl rest
  assume "dropWhile (\<lambda>c. c \<noteq> 10) s = nl # rest"
  then have "length (nl # rest) \<le> length s"
    by (metis length_dropWhile_le)
  then show "(rest, s) \<in> measure length" by simp
qed

declare file_lines.simps [simp del]

text \<open>
  The entries of a file by the words of the specification: its lines in order, each
  trimmed, without those that are then empty or begin with \<^verbatim>\<open>#\<close>.
\<close>

definition entries_spec :: "ustring \<Rightarrow> ustring list" where
  "entries_spec data = [t. l \<leftarrow> file_lines data, t \<leftarrow> [trim l], t \<noteq> [], hd t \<noteq> 35]"

text \<open>A file with a padded line, a comment, an empty line and a CR LF line end.\<close>

definition sample_file :: ustring where
  "sample_file = ascii '' tok1 '' @ [13, 10] @ ascii ''# note'' @ [10, 10, 9] @ ascii ''tok2''"

definition sample_config :: config where
  "sample_config =
     \<lparr>useProxy = True, delayBetweenAccounts = 5000, maxRetries = 3, retryDelay = 1000,
      timeoutMs = 30000, nextRunDelayHours = 25\<rparr>"

text \<open>
  The calls a client was asked to make, in order: the requests sent with retry count 0.
  A retry of a request is not a call of its own.
\<close>

fun calls :: "http_event list \<Rightarrow> (http_method \<times> endpoint) list" where
  "calls [] = []"
| "calls (Send cl m ep k # es) = (if k = 0 then (m, ep) # calls es else calls es)"
| "calls (Backoff k ms # es) = calls es"

text \<open>The waits before retries, in order: the retry's number and the delay.\<close>

fun backoffs :: "http_event list \<Rightarrow> (nat \<times> int) list" where
  "backoffs [] = []"
| "backoffs (Send cl m ep k # es) = backoffs es"
| "backoffs (Backoff k ms # es) = (k, ms) # backoffs es"

text \<open>
  The trace of a request that is retried \<open>n\<close> times when every retry \<open>i\<close> comes after a
  wait of \<open>2 ^ i * d\<close> milliseconds: the original request, then for each retry its wait and
  the request again.
\<close>

definition retry_trace :: "client \<Rightarrow> http_method \<Rightarrow> endpoint \<Rightarrow> int \<Rightarrow> nat \<Rightarrow> http_event list" where
  "retry_trace cl m ep d n =
     Send cl m ep 0 # concat (map (\<lambda>i. [Backoff i (2 ^ i * d), Send cl m ep i]) [1..<Suc n])"

text \<open>
  The timeout left to a request of the service \<open>srv\<close> that starts at oracle index \<open>t\<close>,
  after \<open>i\<close> retries: each retry costs the time its failed attempt took and the wait before
  it. A timeout of 0 is no timeout.
\<close>

fun remaining :: "config \<Rightarrow> server \<Rightarrow> nat \<Rightarrow> nat \<Rightarrow> int" where
  "remaining cfg srv t 0 = timeoutMs cfg"
| "remaining cfg srv t (Suc i) =
     (if timeoutMs cfg = 0 then 0
      else remaining cfg srv t i - snd (srv (t + i)) - 2 ^ Suc i * retryDelay cfg)"

text \<open>
  The attempt number \<open>i\<close> of that request (0 is the original request) fails and is followed
  by a retry: retries are left, the failure is one the library's predicates accept or has
  one of the listed statuses, and the timeout is not used up.
\<close>

definition retried :: "library \<Rightarrow> config \<Rightarrow> server \<Rightarrow> nat \<Rightarrow> nat \<Rightarrow> bool" where
  "retried lib cfg srv t i \<longleftrightarrow>
     i < maxRetries cfg \<and>
     (case fst (srv (t + i)) of
        Inl err \<Rightarrow> isNetworkError lib err \<or> isRetryableError lib err \<or>
                   response_status err \<in> Some ` {429, 500, 502, 503, 504}
      | Inr b \<Rightarrow> False) \<and>
     (timeoutMs cfg = 0 \<or> 0 < remaining cfg srv t (Suc i))"

text \<open>
  An instance of the library for the examples, after the documentation of the packages:
  \<^verbatim>\<open>isNetworkError\<close> needs an error without a response and with a code other than
  \<^verbatim>\<open>ECONNABORTED\<close>; \<^verbatim>\<open>isRetryableError\<close> accepts an error whose code is not \<^verbatim>\<open>ECONNABORTED\<close>
  and that has no response or a status from 500 to 599; the agent's constructor throws on
  a string that does not begin with a URL scheme (a letter, then letters, digits, \<^verbatim>\<open>+\<close>,
  \<^verbatim>\<open>-\<close> or \<^verbatim>\<open>.\<close>, then a colon). The theorems hold for every library.
\<close>

definition isSchemeChar :: "nat \<Rightarrow> bool" where
  "isSchemeChar c \<longleftrightarrow>
     (65 \<le> c \<and> c \<le> 90) \<or> (97 \<le> c \<and> c \<le> 122) \<or> (48 \<le> c \<and> c \<le> 57) \<or>
     c = 43 \<or> c = 45 \<or> c = 46"

definition hasScheme :: "ustring \<Rightarrow> bool" where
  "hasScheme s =
     (case s of
        [] \<Rightarrow> False
      | c # cs \<Rightarrow>
          ((65 \<le> c \<and> c \<le> 90) \<or> (97 \<le> c \<and> c \<le> 122)) \<and>
          (case dropWhile isSchemeChar cs of [] \<Rightarrow> False | d # ds \<Rightarrow> d = 58))"

definition sample_library :: library where
  "sample_library =
     \<lparr>isNetworkError = (\<lambda>e. response_status e = None \<and> error_code e \<noteq> None \<and>
                            error_code e \<noteq> Some ''ECONNABORTED''),
      isRetryableError = (\<lambda>e. error_code e \<noteq> Some ''ECONNABORTED'' \<and>
                            (case response_status e of
                               None \<Rightarrow> True
                             | Some s \<Rightarrow> 500 \<le> s \<and> s \<le> 599)),
      newHttpsProxyAgent = (\<lambda>p. if hasScheme p then None else Some (TypeError ''Invalid URL''))\<rparr>"

text \<open>
  Sample inputs: rejected requests, a client, a configuration with a short timeout, and
  services whose every answer takes 100 milliseconds.
\<close>

definition error_501 :: axios_error where
  "error_501 = AxiosError (Some 501) (Some ''ERR_BAD_RESPONSE'') ''Request failed with status code 501''"

definition error_503 :: axios_error where
  "error_503 = AxiosError (Some 503) (Some ''ERR_BAD_RESPONSE'') ''Request failed with status code 503''"

definition sample_client :: client where
  "sample_client = \<lparr>token = ascii ''tok1'', timeout = 30000, httpsAgent = None\<rparr>"

definition short_config :: config where
  "short_config = sample_config\<lparr>timeoutMs := 5000\<rparr>"

definition short_client :: client where
  "short_client = \<lparr>token = ascii ''tok1'', timeout = 5000, httpsAgent = None\<rparr>"

definition always_501 :: server where
  "always_501 t = (Inl error_501, 100)"

definition flaky_server :: server where
  "flaky_server t =
     (if t < 2 then (Inl error_503, 100)
      else if t = 2 then (Inr (Body 200 (Inr False)), 100)
      else (Inr (Body 200 (Inr True)), 100))"

text \<open>
  More samples: a service where the check-in is already done, one that accepts the
  check-in and still reports it as not done, and a proxy line without a scheme, which
  is not a URL.
\<close>

definition done_server :: server where
  "done_server t = (Inr (Body 200 (Inr True)), 100)"

definition stale_server :: server where
  "stale_server t = (Inr (Body 200 (Inr False)), 100)"

definition bad_proxy :: ustring where
  "bad_proxy = ascii ''10.0.0.1:8080''"

text \<open>The tally after one more outcome, as the loop updates it (index.js, 259-266).\<close>

definition tally :: "results \<Rightarrow> outcome \<Rightarrow> results" where
  "tally res result =
     (if success result
      then (if alreadyCheckedIn result = Some True
            then res\<lparr>successful := successful res + 1,
                     alreadyCheckedInCount := alreadyCheckedInCount res + 1\<rparr>
            else res\<lparr>successful := successful res + 1\<rparr>)
      else res\<lparr>failed := failed res + 1\<rparr>)"

text \<open>The tokens in file order, each with the proxy that goes with its position.\<close>

definition assignments :: "config \<Rightarrow> ustring list \<Rightarrow> ustring list \<Rightarrow> (ustring \<times> ustring jsval) list" where
  "assignments cfg tokens proxies = zip tokens (map (proxyFor cfg proxies) [0..<length tokens])"





text \<open>
  Sample worlds: the token file of two entries with one proxy (fewer proxies than tokens)
  and the service that answers 503 twice, then reports not done, accepts the check-in and
  reports done from then on; and the same with a proxy line that is not a URL.
\<close>

definition sample_world :: world where
  "sample_world =
     \<lparr>service = flaky_server,
      dataFile = (\<lambda>run. Content sample_file),
      proxyFile = (\<lambda>run. Content (ascii ''http://10.0.0.1:8080''))\<rparr>"

definition bad_proxy_world :: world where
  "bad_proxy_world = sample_world\<lparr>proxyFile := (\<lambda>run. Content bad_proxy)\<rparr>"

text \<open>The clients of the two accounts of the sample world.\<close>

definition proxied_client :: client where
  "proxied_client =
     \<lparr>token = ascii ''tok1'', timeout = 30000, httpsAgent = Some (ascii ''http://10.0.0.1:8080'')\<rparr>"

definition second_client :: client where
  "second_client = \<lparr>token = ascii ''tok2'', timeout = 30000, httpsAgent = None\<rparr>"

text \<open>A file that \<^verbatim>\<open>loadTokens\<close> can load: it exists and the read succeeds.\<close>

definition readable :: "file_state \<Rightarrow> bool" where
  "readable f = (case f of Content data \<Rightarrow> True | Missing \<Rightarrow> False | Unreadable msg \<Rightarrow> False)"

text \<open>
  The batch run number \<open>r\<close> can come to its end: \<^verbatim>\<open>data.txt\<close> can be loaded, and a client
  can be created for every token with its proxy.
\<close>

definition completes :: "library \<Rightarrow> config \<Rightarrow> world \<Rightarrow> nat \<Rightarrow> bool" where
  "completes lib cfg w r =
     (case loadTokens (dataFile w r) of
        Inl status \<Rightarrow> False
      | Inr tokens \<Rightarrow>
          list_all (\<lambda>(tok, proxy).
                      case createAxiosInstance lib cfg tok proxy of
                        Inl thrown \<Rightarrow> False
                      | Inr cl \<Rightarrow> True)
            (assignments cfg tokens (loadProxies cfg (proxyFile w r))))"

text \<open>The delays of the timers that start the next run, in order.\<close>

fun nextRuns :: "event list \<Rightarrow> int list" where
  "nextRuns [] = []"
| "nextRuns (NextRun ms # es) = ms # nextRuns es"
| "nextRuns (Account i e # es) = nextRuns es"
| "nextRuns (Delay ms # es) = nextRuns es"

text \<open>
  Two more worlds: one where \<^verbatim>\<open>data.txt\<close> does not exist, and one where it is there for the
  first run and gone afterwards.
\<close>

definition absent_world :: world where
  "absent_world = sample_world\<lparr>dataFile := (\<lambda>run. Missing)\<rparr>"

definition fading_world :: world where
  "fading_world = sample_world\<lparr>dataFile := (\<lambda>run. if run = 0 then Content sample_file else Missing)\<rparr>"

section \<open>Properties of the loaders\<close>

lemma file_lines_Cons:
  "c \<noteq> 10 \<Longrightarrow> file_lines (c # cs) = (case file_lines cs of [] \<Rightarrow> [[c]] | l # ls \<Rightarrow> (c # l) # ls)"
proof (cases "dropWhile (\<lambda>c. c \<noteq> 10) cs")
  case Nil
  assume "c \<noteq> 10"
  then show ?thesis
    by (simp add: Nil file_lines.simps [of "c # cs"] file_lines.simps [of cs])
next
  case (Cons nl rest)
  assume "c \<noteq> 10"
  then show ?thesis
    by (simp add: Cons file_lines.simps [of "c # cs"] file_lines.simps [of cs])
qed

lemma file_lines_sep: "file_lines (10 # cs) = [] # file_lines cs"
  by (simp add: file_lines.simps [of "10 # cs"])

lemma file_lines_Nil: "file_lines [] = [[]]"
  by (simp add: file_lines.simps [of "[]"])

lemma split_str_lines: "split_str s 10 = file_lines s"
  by (induction s) (simp_all add: file_lines_Nil file_lines_sep file_lines_Cons)

lemma keep_iff: "(line \<noteq> [] \<and> \<not> startsWith line [35]) \<longleftrightarrow> (line \<noteq> [] \<and> hd line \<noteq> 35)"
  by (cases line) (auto simp: startsWith_def)

lemma entries_filter:
  "filter (\<lambda>line. line \<noteq> [] \<and> \<not> startsWith line [35]) (map trim ls) =
   [t. l \<leftarrow> ls, t \<leftarrow> [trim l], t \<noteq> [], hd t \<noteq> 35]"
  by (induction ls) (auto simp: keep_iff)

lemma dropWhile_fixed: "xs = [] \<or> \<not> P (hd xs) \<Longrightarrow> dropWhile P xs = xs"
  by (cases xs) auto

lemma last_dropWhile: "dropWhile P xs \<noteq> [] \<Longrightarrow> last (dropWhile P xs) = last xs"
  by (induction xs) auto

lemma trim_trim: "trim (trim s) = trim s"
proof -
  define u where "u = dropWhile isWhiteSpace s"
  define v where "v = dropWhile isWhiteSpace (rev u)"
  have t: "trim s = rev v" by (simp add: trim_def u_def v_def)
  have v: "dropWhile isWhiteSpace v = v" by (simp add: v_def)
  have w: "dropWhile isWhiteSpace (rev v) = rev v"
  proof (cases "v = []")
    case True
    then show ?thesis by simp
  next
    case False
    then have "last v = last (rev u)"
      unfolding v_def by (rule last_dropWhile)
    moreover have "u \<noteq> []" using False by (auto simp: v_def)
    ultimately have "hd (rev v) = hd u" using False
      by (simp add: hd_rev last_rev)
    moreover have "\<not> isWhiteSpace (hd u)"
      using \<open>u \<noteq> []\<close> unfolding u_def by (rule hd_dropWhile)
    ultimately show ?thesis by (intro dropWhile_fixed) simp
  qed
  have "trim (rev v) = rev v"
    by (simp add: trim_def [of "rev v"] w v)
  then show ?thesis by (simp only: t)
qed

lemma entries_spec_trimmed: "l \<in> set (entries_spec data) \<Longrightarrow> l \<noteq> [] \<and> \<not> startsWith l (ascii ''#'') \<and> trim l = l"
  by (auto simp: entries_spec_def ascii_def startsWith_def trim_trim hd_conv_nth take_Suc_conv_app_nth split: if_splits)


lemma entries_code:
  "filter (\<lambda>line. line \<noteq> [] \<and> \<not> startsWith line [35]) (map trim (split_str data 10)) =
   entries_spec data"
  by (simp add: entries_filter split_str_lines entries_spec_def)

text \<open>
  Claim C5, as amended. \<^verbatim>\<open>loadTokens\<close>, when \<^verbatim>\<open>data.txt\<close> exists and can be read, and
  \<^verbatim>\<open>loadProxies\<close>, when \<^verbatim>\<open>config.useProxy\<close> is set and \<^verbatim>\<open>proxy.txt\<close> exists and can be read,
  return exactly the lines of the file, in file order, trimmed, without the lines that are
  empty after trimming or whose trimmed form starts with \<^verbatim>\<open>#\<close>. Otherwise \<^verbatim>\<open>loadTokens\<close> ends
  the process with status 1 and \<^verbatim>\<open>loadProxies\<close> returns the empty list. No returned entry is
  empty, starts with \<^verbatim>\<open>#\<close>, or has white space at either end.
\<close>

theorem loaders_return_entries:
  "loadTokens f =
     (case f of Content data \<Rightarrow> Inr (entries_spec data)
      | Missing \<Rightarrow> Inl 1 | Unreadable msg \<Rightarrow> Inl 1) \<and>
   loadProxies cfg f =
     (case f of Content data \<Rightarrow> if useProxy cfg then entries_spec data else []
      | Missing \<Rightarrow> [] | Unreadable msg \<Rightarrow> []) \<and>
   (\<forall>l \<in> set (loadProxies cfg f). l \<noteq> [] \<and> \<not> startsWith l (ascii ''#'') \<and> trim l = l) \<and>
   (\<forall>ts. loadTokens f = Inr ts \<longrightarrow>
      (\<forall>l \<in> set ts. l \<noteq> [] \<and> \<not> startsWith l (ascii ''#'') \<and> trim l = l))"
proof -
  have tok: "loadTokens f =
     (case f of Content data \<Rightarrow> Inr (entries_spec data)
      | Missing \<Rightarrow> Inl 1 | Unreadable msg \<Rightarrow> Inl 1)"
    by (simp add: loadTokens_def entries_code split: file_state.split)
  have prx: "loadProxies cfg f =
     (case f of Content data \<Rightarrow> if useProxy cfg then entries_spec data else []
      | Missing \<Rightarrow> [] | Unreadable msg \<Rightarrow> [])"
    by (simp add: loadProxies_def entries_code split: file_state.split)
  have "\<forall>l \<in> set (loadProxies cfg f). l \<noteq> [] \<and> \<not> startsWith l (ascii ''#'') \<and> trim l = l"
    unfolding prx using entries_spec_trimmed by (cases f) auto
  moreover have "\<forall>ts. loadTokens f = Inr ts \<longrightarrow>
      (\<forall>l \<in> set ts. l \<noteq> [] \<and> \<not> startsWith l (ascii ''#'') \<and> trim l = l)"
    unfolding tok using entries_spec_trimmed by (cases f) auto
  ultimately show ?thesis using tok prx by blast
qed

text \<open>The theorem at the sample file, with proxies switched on.\<close>

theorem loaders_return_entries_witness:
  "entries_spec sample_file = [ascii ''tok1'', ascii ''tok2''] \<and>
   loadTokens (Content sample_file) = Inr (entries_spec sample_file) \<and>
   loadProxies sample_config (Content sample_file) = entries_spec sample_file"
proof -
  have "loadTokens (Content sample_file) = Inr [ascii ''tok1'', ascii ''tok2'']"
    by (simp add: loadTokens_def sample_file_def ascii_def trim_def isWhiteSpace_def
        startsWith_def)
  then show ?thesis
    using loaders_return_entries [of "Content sample_file" sample_config]
    by (simp add: sample_config_def)
qed

text \<open>
  Claim C5 as stated fails for \<^verbatim>\<open>loadProxies\<close>: with \<^verbatim>\<open>useProxy\<close> off it returns the empty
  list whatever \<^verbatim>\<open>proxy.txt\<close> holds, here a file whose one line is an entry.
\<close>

theorem loadProxies_ignores_file_counterexample:
  "loadProxies (sample_config\<lparr>useProxy := False\<rparr>) (Content (ascii ''http://10.0.0.1:8080'')) = [] \<and>
   filter (\<lambda>line. line \<noteq> [] \<and> \<not> startsWith line (ascii ''#''))
     (map trim (split_str (ascii ''http://10.0.0.1:8080'') 10)) = [ascii ''http://10.0.0.1:8080'']"
  by (simp add: loadProxies_def ascii_def trim_def isWhiteSpace_def startsWith_def)

section \<open>Properties of the retrying client\<close>

lemma request_ok:
  "srv t = (Inr b, d) \<Longrightarrow> request lib cfg srv cl m ep k tmo t = (Inr b, [Send cl m ep k], Suc t)"
  by (simp add: request.simps [of lib cfg srv cl m ep k tmo t])

lemma request_stop:
  "srv t = (Inl err, d) \<Longrightarrow> \<not> (k < maxRetries cfg \<and> retryCondition lib err) \<Longrightarrow>
   request lib cfg srv cl m ep k tmo t = (Inl err, [Send cl m ep k], Suc t)"
  by (auto simp add: request.simps [of lib cfg srv cl m ep k tmo t])

lemma request_spent:
  "srv t = (Inl err, d) \<Longrightarrow> tmo \<noteq> 0 \<Longrightarrow> tmo - d - retryDelayFn cfg (Suc k) \<le> 0 \<Longrightarrow>
   request lib cfg srv cl m ep k tmo t = (Inl err, [Send cl m ep k], Suc t)"
  by (auto simp add: request.simps [of lib cfg srv cl m ep k tmo t] Let_def)

lemma request_retry:
  "srv t = (Inl err, d) \<Longrightarrow> k < maxRetries cfg \<Longrightarrow> retryCondition lib err \<Longrightarrow>
   tmo = 0 \<or> 0 < tmo - d - retryDelayFn cfg (Suc k) \<Longrightarrow>
   tmo' = (if tmo = 0 then 0 else tmo - d - retryDelayFn cfg (Suc k)) \<Longrightarrow>
   request lib cfg srv cl m ep k tmo t =
     (fst (request lib cfg srv cl m ep (Suc k) tmo' (Suc t)),
      Send cl m ep k # Backoff (Suc k) (retryDelayFn cfg (Suc k)) #
        fst (snd (request lib cfg srv cl m ep (Suc k) tmo' (Suc t))),
      snd (snd (request lib cfg srv cl m ep (Suc k) tmo' (Suc t))))"
  by (auto simp add: request.simps [of lib cfg srv cl m ep k tmo t] Let_def split: prod.split)

lemma request_cases:
  obtains (ok) b d where "srv t = (Inr b, d)"
  | (stop) err d where "srv t = (Inl err, d)" "\<not> (k < maxRetries cfg \<and> retryCondition lib err)"
  | (spent) err d where "srv t = (Inl err, d)" "k < maxRetries cfg" "retryCondition lib err"
      "tmo \<noteq> 0" "tmo - d - retryDelayFn cfg (Suc k) \<le> 0"
  | (retry) err d where "srv t = (Inl err, d)" "k < maxRetries cfg" "retryCondition lib err"
      "tmo = 0 \<or> 0 < tmo - d - retryDelayFn cfg (Suc k)"
proof (cases "srv t")
  case (Pair r d)
  then show ?thesis
    using that by (cases r) (auto, force)
qed


lemma request_head:
  "\<exists>rest. fst (snd (request lib cfg srv cl m ep k tmo t)) = Send cl m ep k # rest"
  by (cases rule: request_cases [where srv = srv and t = t and k = k and cfg = cfg and lib = lib
        and tmo = tmo])
    (simp_all add: request_ok request_stop request_spent request_retry)

lemma retry_trace_Suc:
  "retry_trace cl m ep d (Suc n) =
   retry_trace cl m ep d n @ [Backoff (Suc n) (2 ^ Suc n * d), Send cl m ep (Suc n)]"
  by (simp add: retry_trace_def)

lemma remaining_zero: "timeoutMs cfg = 0 \<Longrightarrow> remaining cfg srv t i = 0"
  by (cases i) simp_all

lemma remaining_nonzero:
  "timeoutMs cfg \<noteq> 0 \<Longrightarrow> \<forall>i<k. retried lib cfg srv t i \<Longrightarrow> remaining cfg srv t k \<noteq> 0"
proof (cases k)
  case 0
  assume "timeoutMs cfg \<noteq> 0"
  with 0 show ?thesis by simp
next
  case (Suc k')
  assume "timeoutMs cfg \<noteq> 0" and "\<forall>i<k. retried lib cfg srv t i"
  with Suc have "retried lib cfg srv t k'" by simp
  with \<open>timeoutMs cfg \<noteq> 0\<close> have "0 < remaining cfg srv t (Suc k')"
    by (simp add: retried_def)
  with Suc show ?thesis by simp
qed

lemma retried_condition:
  "retried lib cfg srv t i \<Longrightarrow>
   \<exists>err d. srv (t + i) = (Inl err, d) \<and> i < maxRetries cfg \<and> retryCondition lib err"
  by (cases "srv (t + i)")
    (auto simp: retried_def retryCondition_def split: sum.splits option.splits)

lemma request_unroll:
  "\<forall>i<k. retried lib cfg srv t i \<Longrightarrow>
   fst (snd (request lib cfg srv cl m ep 0 (timeoutMs cfg) t)) =
     retry_trace cl m ep (retryDelay cfg) k @
     tl (fst (snd (request lib cfg srv cl m ep k (remaining cfg srv t k) (t + k)))) \<and>
   snd (snd (request lib cfg srv cl m ep 0 (timeoutMs cfg) t)) =
     snd (snd (request lib cfg srv cl m ep k (remaining cfg srv t k) (t + k))) \<and>
   fst (request lib cfg srv cl m ep 0 (timeoutMs cfg) t) =
     fst (request lib cfg srv cl m ep k (remaining cfg srv t k) (t + k))"
proof (induction k)
  case 0
  obtain rest where "fst (snd (request lib cfg srv cl m ep 0 (timeoutMs cfg) t)) = Send cl m ep 0 # rest"
    using request_head by blast
  then show ?case by (simp add: retry_trace_def)
next
  case (Suc k)
  then have IH: "fst (snd (request lib cfg srv cl m ep 0 (timeoutMs cfg) t)) =
     retry_trace cl m ep (retryDelay cfg) k @
     tl (fst (snd (request lib cfg srv cl m ep k (remaining cfg srv t k) (t + k))))"
    and IH2: "snd (snd (request lib cfg srv cl m ep 0 (timeoutMs cfg) t)) =
     snd (snd (request lib cfg srv cl m ep k (remaining cfg srv t k) (t + k)))"
    and IH3: "fst (request lib cfg srv cl m ep 0 (timeoutMs cfg) t) =
     fst (request lib cfg srv cl m ep k (remaining cfg srv t k) (t + k))"
    and before: "\<forall>i<k. retried lib cfg srv t i"
    and k: "retried lib cfg srv t k"
    by simp_all
  from k obtain err d where
    srv: "srv (t + k) = (Inl err, d)" and lt: "k < maxRetries cfg" and rc: "retryCondition lib err"
    using retried_condition by blast
  have budget: "remaining cfg srv t k = 0 \<or>
      0 < remaining cfg srv t k - d - retryDelayFn cfg (Suc k)"
  proof (cases "timeoutMs cfg = 0")
    case True
    then show ?thesis by (simp add: remaining_zero)
  next
    case False
    with k srv show ?thesis by (simp add: retried_def retryDelayFn_def)
  qed
  have next_tmo: "remaining cfg srv t (Suc k) =
      (if remaining cfg srv t k = 0 then 0
       else remaining cfg srv t k - d - retryDelayFn cfg (Suc k))"
  proof (cases "timeoutMs cfg = 0")
    case True
    then show ?thesis by (simp add: remaining_zero)
  next
    case False
    with remaining_nonzero [OF False before] srv show ?thesis
      by (simp add: retryDelayFn_def)
  qed
  note step = request_retry [where srv = srv and t = "t + k" and cl = cl and m = m and ep = ep,
      OF srv lt rc budget next_tmo]
  obtain rest where rest:
    "fst (snd (request lib cfg srv cl m ep (Suc k) (remaining cfg srv t (Suc k)) (Suc (t + k)))) =
       Send cl m ep (Suc k) # rest"
    using request_head by blast
  show ?case
    by (simp add: IH IH2 IH3 step rest retry_trace_Suc retryDelayFn_def del: remaining.simps)
qed

lemma request_last:
  assumes "\<forall>i<k. retried lib cfg srv t i" and "\<not> retried lib cfg srv t k"
  shows "snd (request lib cfg srv cl m ep k (remaining cfg srv t k) (t + k)) =
         ([Send cl m ep k], Suc (t + k)) \<and>
         fst (request lib cfg srv cl m ep k (remaining cfg srv t k) (t + k)) = fst (srv (t + k))"
proof (cases rule: request_cases [where srv = srv and t = "t + k" and k = k and cfg = cfg
      and lib = lib and tmo = "remaining cfg srv t k"])
  case (ok b d)
  then show ?thesis by (simp add: request_ok)
next
  case (stop err d)
  then show ?thesis by (simp add: request_stop)
next
  case (spent err d)
  then show ?thesis by (simp add: request_spent)
next
  case (retry err d)
  have "timeoutMs cfg = 0 \<or> 0 < remaining cfg srv t (Suc k)"
  proof (cases "timeoutMs cfg = 0")
    case True
    then show ?thesis by simp
  next
    case False
    with remaining_nonzero [OF False assms(1)] retry show ?thesis
      by (simp add: retryDelayFn_def)
  qed
  with retry have "retried lib cfg srv t k"
    by (auto simp: retried_def retryCondition_def split: option.splits)
  with assms(2) show ?thesis by simp
qed

lemma request_trace:
  "\<exists>n\<le>maxRetries cfg.
     (\<forall>i<n. retried lib cfg srv t i) \<and> \<not> retried lib cfg srv t n \<and>
     request lib cfg srv cl m ep 0 (timeoutMs cfg) t =
       (fst (srv (t + n)), retry_trace cl m ep (retryDelay cfg) n, Suc (t + n))"
proof -
  have "\<not> retried lib cfg srv t (maxRetries cfg)" by (simp add: retried_def)
  then have "\<exists>n. \<not> retried lib cfg srv t n" by blast
  then obtain n where n: "\<not> retried lib cfg srv t n" and least: "\<forall>i<n. retried lib cfg srv t i"
    by (subst (asm) exists_least_iff) auto
  have "n \<le> maxRetries cfg"
  proof (rule ccontr)
    assume "\<not> n \<le> maxRetries cfg"
    then have "retried lib cfg srv t (maxRetries cfg)" using least by simp
    then show False by (simp add: retried_def)
  qed
  moreover from request_unroll [OF least, of cl m ep] request_last [OF least n, of cl m ep]
  have "request lib cfg srv cl m ep 0 (timeoutMs cfg) t =
       (fst (srv (t + n)), retry_trace cl m ep (retryDelay cfg) n, Suc (t + n))"
    by (intro prod_eqI) simp_all
  ultimately show ?thesis using n least by blast
qed


lemma backoffs_append: "backoffs (xs @ ys) = backoffs xs @ backoffs ys"
  by (induction xs rule: backoffs.induct) simp_all

lemma backoffs_retry_trace:
  "backoffs (retry_trace cl m ep d n) = map (\<lambda>i. (i, 2 ^ i * d)) [1..<Suc n]"
proof (induction n)
  case 0
  show ?case by (simp add: retry_trace_def)
next
  case (Suc n)
  then show ?case by (simp add: retry_trace_Suc backoffs_append)
qed

lemma length_backoffs_retry_trace: "length (backoffs (retry_trace cl m ep d n)) = n"
  by (simp only: backoffs_retry_trace length_map length_upt diff_Suc_1)

lemma calls_append: "calls (xs @ ys) = calls xs @ calls ys"
  by (induction xs rule: calls.induct) simp_all

lemma calls_retry_trace: "calls (retry_trace cl m ep d n) = [(m, ep)]"
proof (induction n)
  case 0
  show ?case by (simp add: retry_trace_def)
next
  case (Suc n)
  then show ?case by (simp add: retry_trace_Suc calls_append)
qed

lemma Send_retry_trace:
  "Send cl' m' ep' k \<in> set (retry_trace cl m ep d n) \<longleftrightarrow>
   cl' = cl \<and> m' = m \<and> ep' = ep \<and> k \<le> n"
proof (induction n)
  case 0
  show ?case by (auto simp: retry_trace_def)
next
  case (Suc n)
  then show ?case by (auto simp: retry_trace_Suc)
qed

lemma createAxiosInstance_timeout:
  "createAxiosInstance lib cfg tok proxy = Inr cl \<Longrightarrow> timeout cl = timeoutMs cfg"
  by (auto simp: createAxiosInstance_def split: jsval.splits if_splits option.splits)

text \<open>
  Claim C1, as amended. A request of a per-account client is sent for the \<open>(j + 1)\<close>-th
  time if and only if each of its attempts up to number \<open>j\<close> failed and was followed by a
  retry, which is the case exactly when fewer than \<^verbatim>\<open>config.maxRetries\<close> retries were made
  before it, its failure is one that the library's \<^verbatim>\<open>isNetworkError\<close> or
  \<^verbatim>\<open>isRetryableError\<close> accepts or has a response status among 429, 500, 502, 503, 504, and
  the timeout \<^verbatim>\<open>config.timeoutMs\<close> is 0 or is not used up by the failed attempts and the
  waits so far. At most \<^verbatim>\<open>config.maxRetries\<close> retries are made per request.
\<close>

theorem retry_decision:
  assumes "createAxiosInstance lib cfg tok proxy = Inr cl"
  shows "(Send cl m ep (Suc j) \<in> set (fst (snd (request lib cfg srv cl m ep 0 (timeout cl) t))) \<longleftrightarrow>
      (\<forall>i\<le>j. retried lib cfg srv t i)) \<and>
    length (backoffs (fst (snd (request lib cfg srv cl m ep 0 (timeout cl) t)))) \<le> maxRetries cfg"
proof -
  have tmo: "timeout cl = timeoutMs cfg"
    using assms by (rule createAxiosInstance_timeout)
  obtain n where n: "n \<le> maxRetries cfg"
    and before: "\<forall>i<n. retried lib cfg srv t i" and at: "\<not> retried lib cfg srv t n"
    and req: "request lib cfg srv cl m ep 0 (timeoutMs cfg) t =
       (fst (srv (t + n)), retry_trace cl m ep (retryDelay cfg) n, Suc (t + n))"
    using request_trace [of cfg lib srv t cl m ep] by blast
  have "(\<forall>i\<le>j. retried lib cfg srv t i) \<longleftrightarrow> j < n"
  proof
    assume a: "\<forall>i\<le>j. retried lib cfg srv t i"
    show "j < n"
    proof (rule ccontr)
      assume "\<not> j < n"
      then have "n \<le> j" by simp
      with a at show False by blast
    qed
  next
    assume "j < n"
    with before show "\<forall>i\<le>j. retried lib cfg srv t i" by simp
  qed
  then show ?thesis
    using n by (auto simp add: tmo req Send_retry_trace length_backoffs_retry_trace)
qed

lemma sample_client_built:
  "createAxiosInstance sample_library sample_config (ascii ''tok1'') Null = Inr sample_client"
  by (simp add: createAxiosInstance_def sample_client_def sample_config_def)

lemma short_client_built:
  "createAxiosInstance sample_library short_config (ascii ''tok1'') Null = Inr short_client"
  by (simp add: createAxiosInstance_def short_client_def short_config_def sample_config_def)

text \<open>
  The theorem at a service that answers 503 twice and then accepts (two retries, no
  third), and at a service that always fails with a timeout of 5 seconds: the first retry
  is made, the second is given up because the waits of 2 and 4 seconds use the timeout up.
\<close>

theorem retry_decision_witness:
  "createAxiosInstance sample_library sample_config (ascii ''tok1'') Null = Inr sample_client \<and>
   retried sample_library sample_config flaky_server 0 0 \<and>
   retried sample_library sample_config flaky_server 0 1 \<and>
   \<not> retried sample_library sample_config flaky_server 0 2 \<and>
   Send sample_client GET statusEndpoint 2 \<in>
     set (fst (snd (request sample_library sample_config flaky_server sample_client GET
                      statusEndpoint 0 (timeout sample_client) 0))) \<and>
   Send sample_client GET statusEndpoint 3 \<notin>
     set (fst (snd (request sample_library sample_config flaky_server sample_client GET
                      statusEndpoint 0 (timeout sample_client) 0))) \<and>
   createAxiosInstance sample_library short_config (ascii ''tok1'') Null = Inr short_client \<and>
   retried sample_library short_config always_501 0 0 \<and>
   \<not> retried sample_library short_config always_501 0 1 \<and>
   Send short_client GET statusEndpoint 2 \<notin>
     set (fst (snd (request sample_library short_config always_501 short_client GET
                      statusEndpoint 0 (timeout short_client) 0)))"
proof -
  have r0: "retried sample_library sample_config flaky_server 0 0"
    by (simp add: retried_def sample_library_def sample_config_def flaky_server_def error_503_def)
  have r1: "retried sample_library sample_config flaky_server 0 1"
    by (simp add: retried_def sample_library_def sample_config_def flaky_server_def error_503_def)
  have r2: "\<not> retried sample_library sample_config flaky_server 0 2"
    by (simp add: retried_def flaky_server_def)
  have s0: "retried sample_library short_config always_501 0 0"
    by (simp add: retried_def sample_library_def short_config_def sample_config_def
        always_501_def error_501_def)
  have s1: "\<not> retried sample_library short_config always_501 0 1"
    by (simp add: retried_def sample_library_def short_config_def sample_config_def
        always_501_def error_501_def)
  have a: "\<forall>i\<le>1. retried sample_library sample_config flaky_server 0 i"
    using r0 r1 by (simp add: le_Suc_eq)
  have b: "\<not> (\<forall>i\<le>2. retried sample_library sample_config flaky_server 0 i)"
    using r2 by blast
  have c: "\<not> (\<forall>i\<le>1. retried sample_library short_config always_501 0 i)"
    using s1 by blast
  show ?thesis
    using r0 r1 r2 s0 s1 a b c sample_client_built short_client_built
      retry_decision [OF sample_client_built, of GET statusEndpoint 1 flaky_server 0]
      retry_decision [OF sample_client_built, of GET statusEndpoint 2 flaky_server 0]
      retry_decision [OF short_client_built, of GET statusEndpoint 1 always_501 0]
    by (simp add: numeral_2_eq_2 numeral_3_eq_3)
qed

text \<open>
  Claim C1 as stated fails: a response with status 501 is neither a network error nor in
  the list, and the request is retried until the retries are used up, since
  \<^verbatim>\<open>isRetryableError\<close> accepts every status from 500 to 599.
\<close>

theorem retry_on_501_counterexample:
  "\<not> isNetworkError sample_library error_501 \<and>
   response_status error_501 = Some 501 \<and>
   fst (snd (request sample_library sample_config always_501 sample_client GET statusEndpoint 0
               (timeout sample_client) 0)) =
     [Send sample_client GET statusEndpoint 0, Backoff 1 2000,
      Send sample_client GET statusEndpoint 1, Backoff 2 4000,
      Send sample_client GET statusEndpoint 2, Backoff 3 8000,
      Send sample_client GET statusEndpoint 3]"
  by (simp add: request.simps always_501_def sample_config_def retryCondition_def
      sample_library_def error_501_def retryDelayFn_def sample_client_def)

text \<open>
  Claim C7. The trace of every request of a per-account client is the original request
  followed, for each retry \<open>n = 1, 2, ...\<close> in turn, by a wait of exactly
  \<open>2 ^ n * config.retryDelay\<close> milliseconds and then the request again: every retry comes
  directly after its wait, and nothing else is on the trace.
\<close>

theorem retry_delay_exponential:
  assumes "createAxiosInstance lib cfg tok proxy = Inr cl"
  shows "fst (snd (request lib cfg srv cl m ep 0 (timeout cl) t)) =
    retry_trace cl m ep (retryDelay cfg)
      (length (backoffs (fst (snd (request lib cfg srv cl m ep 0 (timeout cl) t)))))"
proof -
  have tmo: "timeout cl = timeoutMs cfg"
    using assms by (rule createAxiosInstance_timeout)
  obtain n where
    req: "request lib cfg srv cl m ep 0 (timeoutMs cfg) t =
       (fst (srv (t + n)), retry_trace cl m ep (retryDelay cfg) n, Suc (t + n))"
    using request_trace [of cfg lib srv t cl m ep] by blast
  show ?thesis
    by (simp add: tmo req length_backoffs_retry_trace)
qed

text \<open>The theorem at a service that always fails: three retries after 2, 4 and 8 seconds.\<close>

theorem retry_delay_exponential_witness:
  "createAxiosInstance sample_library sample_config (ascii ''tok1'') Null = Inr sample_client \<and>
   fst (snd (request sample_library sample_config always_501 sample_client GET statusEndpoint 0
               (timeout sample_client) 0)) =
     [Send sample_client GET statusEndpoint 0, Backoff 1 2000,
      Send sample_client GET statusEndpoint 1, Backoff 2 4000,
      Send sample_client GET statusEndpoint 2, Backoff 3 8000,
      Send sample_client GET statusEndpoint 3]"
proof -
  have "length (backoffs (fst (snd (request sample_library sample_config always_501 sample_client
           GET statusEndpoint 0 (timeout sample_client) 0)))) = 3"
    by (simp add: request.simps always_501_def sample_config_def retryCondition_def
      sample_library_def error_501_def retryDelayFn_def sample_client_def)
  then show ?thesis
    using retry_delay_exponential [OF sample_client_built, of always_501 GET statusEndpoint 0]
      sample_client_built
    by (simp add: retry_trace_def sample_config_def upt_conv_Cons del: upt_Suc)
qed

section \<open>Properties of the account processor\<close>

lemma request_induct [case_names final again]:
  assumes final: "\<And>k tmo t. snd (request lib cfg srv cl m ep k tmo t) = ([Send cl m ep k], Suc t) \<Longrightarrow>
      P k tmo t"
    and again: "\<And>k tmo t err d tmo'.
      srv t = (Inl err, d) \<Longrightarrow> k < maxRetries cfg \<Longrightarrow> retryCondition lib err \<Longrightarrow>
      tmo = 0 \<or> 0 < tmo - d - retryDelayFn cfg (Suc k) \<Longrightarrow>
      tmo' = (if tmo = 0 then 0 else tmo - d - retryDelayFn cfg (Suc k)) \<Longrightarrow>
      P (Suc k) tmo' (Suc t) \<Longrightarrow> P k tmo t"
  shows "P k tmo t"
proof -
  have "\<forall>tmo t. P k tmo t"
  proof (induct k rule: measure_induct_rule [where f = "\<lambda>k. maxRetries cfg - k"])
    case (less k)
    show ?case
    proof (intro allI)
      fix tmo t
      show "P k tmo t"
      proof (cases rule: request_cases [where srv = srv and t = t and k = k and cfg = cfg
            and lib = lib and tmo = tmo])
        case (ok b d)
        then show ?thesis by (intro final) (simp add: request_ok)
      next
        case (stop err d)
        then show ?thesis by (intro final) (simp add: request_stop)
      next
        case (spent err d)
        then show ?thesis by (intro final) (simp add: request_spent)
      next
        case (retry err d)
        then have "maxRetries cfg - Suc k < maxRetries cfg - k" by simp
        from less.hyps [OF this]
        have "P (Suc k) (if tmo = 0 then 0 else tmo - d - retryDelayFn cfg (Suc k)) (Suc t)"
          by blast
        from again [OF retry(1) retry(2) retry(3) retry(4) refl this] show ?thesis .
      qed
    qed
  qed
  then show ?thesis by blast
qed

lemma request_calls:
  "calls (fst (snd (request lib cfg srv cl m ep k tmo t))) = (if k = 0 then [(m, ep)] else [])"
proof (induction k tmo t rule: request_induct [where lib = lib and cfg = cfg and srv = srv
      and cl = cl and m = m and ep = ep])
  case (final k tmo t)
  then show ?case by simp
next
  case (again k tmo t err d tmo')
  from again(6) show ?case
    by (auto simp add: request_retry [where srv = srv and t = t, OF again(1-5)])
qed

lemma request_client:
  "Send cl' m' ep' k' \<in> set (fst (snd (request lib cfg srv cl m ep k tmo t))) \<longrightarrow> cl' = cl"
proof (induction k tmo t rule: request_induct [where lib = lib and cfg = cfg and srv = srv
      and cl = cl and m = m and ep = ep])
  case (final k tmo t)
  then show ?case by simp
next
  case (again k tmo t err d tmo')
  from again(6) show ?case
    by (auto simp add: request_retry [where srv = srv and t = t, OF again(1-5)])
qed

lemma request_nonempty: "fst (snd (request lib cfg srv cl m ep k tmo t)) \<noteq> []"
  using request_head [of lib cfg srv cl m ep k tmo t] by auto


lemma checkAccountStatus_events:
  "fst (snd (checkAccountStatus lib cfg srv cl idx t)) =
   fst (snd (request lib cfg srv cl GET statusEndpoint 0 (timeout cl) t))"
  by (simp add: checkAccountStatus_def split: prod.split sum.split)

lemma performDailyCheckin_events:
  "fst (snd (performDailyCheckin lib cfg srv cl idx t)) =
   fst (snd (request lib cfg srv cl POST checkinEndpoint 0 (timeout cl) t))"
  by (simp add: performDailyCheckin_def split: prod.split sum.split)

lemma checkAccountStatus_calls:
  "checkAccountStatus lib cfg srv cl idx t = (r, evs, t') \<Longrightarrow> calls evs = [(GET, statusEndpoint)]"
  using checkAccountStatus_events [of lib cfg srv cl idx t]
    request_calls [of lib cfg srv cl GET statusEndpoint 0 "timeout cl" t] by simp

lemma performDailyCheckin_calls:
  "performDailyCheckin lib cfg srv cl idx t = (r, evs, t') \<Longrightarrow> calls evs = [(POST, checkinEndpoint)]"
  using performDailyCheckin_events [of lib cfg srv cl idx t]
    request_calls [of lib cfg srv cl POST checkinEndpoint 0 "timeout cl" t] by simp

lemma performDailyCheckin_True:
  "performDailyCheckin lib cfg srv cl idx t = (Inr ok, evs, t') \<Longrightarrow> ok"
  by (auto simp: performDailyCheckin_def split: prod.splits sum.splits if_splits)

lemma processAccount_thrown:
  "createAxiosInstance lib cfg tok proxy = Inl err \<Longrightarrow>
   processAccount lib cfg srv tok proxy idx t = (Inl err, [], t)"
  by (simp add: processAccount_def)

text \<open>
  Claim C2, as amended. An account's processing makes at most three calls, an initial part of
  GET status, POST check-in, GET status: none when the client cannot be created; otherwise
  the first status check always, the check-in only when the first check returned and
  reported the check-in as not done, and the second status check only when the check-in
  call returned with code 200.
\<close>

theorem processAccount_calls:
  "calls (fst (snd (processAccount lib cfg srv tok proxy idx t))) =
     (case createAxiosInstance lib cfg tok proxy of
        Inl thrown \<Rightarrow> []
      | Inr cl \<Rightarrow>
          (case checkAccountStatus lib cfg srv cl idx t of
             (Inl err, e1, t1) \<Rightarrow> [(GET, statusEndpoint)]
           | (Inr True, e1, t1) \<Rightarrow> [(GET, statusEndpoint)]
           | (Inr False, e1, t1) \<Rightarrow>
               (case performDailyCheckin lib cfg srv cl idx t1 of
                  (Inl err, e2, t2) \<Rightarrow> [(GET, statusEndpoint), (POST, checkinEndpoint)]
                | (Inr ok, e2, t2) \<Rightarrow>
                    [(GET, statusEndpoint), (POST, checkinEndpoint), (GET, statusEndpoint)])))"
proof (cases "createAxiosInstance lib cfg tok proxy")
  case (Inl err)
  then show ?thesis by (simp add: processAccount_thrown)
next
  case (Inr cl)
  obtain r1 e1 t1 where c1: "checkAccountStatus lib cfg srv cl idx t = (r1, e1, t1)"
    by (cases "checkAccountStatus lib cfg srv cl idx t")
  obtain r2 e2 t2 where c2: "performDailyCheckin lib cfg srv cl idx t1 = (r2, e2, t2)"
    by (cases "performDailyCheckin lib cfg srv cl idx t1")
  obtain r3 e3 t3 where c3: "checkAccountStatus lib cfg srv cl idx t2 = (r3, e3, t3)"
    by (cases "checkAccountStatus lib cfg srv cl idx t2")
  note k = checkAccountStatus_calls [OF c1] performDailyCheckin_calls [OF c2]
    checkAccountStatus_calls [OF c3]
  show ?thesis
    by (cases r1; cases r2; cases r3)
      (simp_all add: processAccount_def Inr c1 c2 c3 k calls_append)
qed

text \<open>The definitions that evaluate the model at the sample inputs.\<close>

lemmas sample_eval =
  request.simps checkAccountStatus_def performDailyCheckin_def createAxiosInstance_def
  sample_config_def short_config_def retryCondition_def sample_library_def retryDelayFn_def
  error_503_def error_501_def flaky_server_def done_server_def stale_server_def always_501_def
  sample_client_def

lemma bad_proxy_thrown:
  "createAxiosInstance sample_library sample_config tok (Value bad_proxy) =
   Inl (TypeError ''Invalid URL'')"
  by (simp add: createAxiosInstance_def sample_library_def bad_proxy_def ascii_def hasScheme_def)

text \<open>
  The theorem at an account that is not checked in and a service that answers 503 twice,
  then accepts: all three calls are made. And at a proxy that is not a URL: no call.
\<close>

theorem processAccount_calls_witness:
  "calls (fst (snd (processAccount sample_library sample_config flaky_server (ascii ''tok1'') Null 1 0))) =
     [(GET, statusEndpoint), (POST, checkinEndpoint), (GET, statusEndpoint)] \<and>
   calls (fst (snd (processAccount sample_library sample_config flaky_server (ascii ''tok1'')
                      (Value bad_proxy) 1 0))) = []"
proof -
  have c1: "checkAccountStatus sample_library sample_config flaky_server sample_client 1 0 =
            (Inr False,
             [Send sample_client GET statusEndpoint 0, Backoff 1 2000,
              Send sample_client GET statusEndpoint 1,
              Backoff 2 4000, Send sample_client GET statusEndpoint 2], 3)"
    by (simp add: sample_eval)
  have c2: "performDailyCheckin sample_library sample_config flaky_server sample_client 1 3 =
            (Inr True, [Send sample_client POST checkinEndpoint 0], 4)"
    by (simp add: sample_eval)
  show ?thesis
    using c1 c2
      processAccount_calls [of sample_library sample_config flaky_server "ascii ''tok1''" Null 1 0]
      processAccount_calls [of sample_library sample_config flaky_server "ascii ''tok1''"
        "Value bad_proxy" 1 0]
    by (simp add: sample_client_built bad_proxy_thrown)
qed

text \<open>
  Claim C2 as stated fails: for an account that is already checked in the processor makes
  one call, the first status check.
\<close>

theorem processAccount_one_call_counterexample:
  "calls (fst (snd (processAccount sample_library sample_config done_server (ascii ''tok1'') Null 1 0))) =
     [(GET, statusEndpoint)]"
  by (simp add: processAccount_def sample_client_built)
    (simp add: request.simps checkAccountStatus_def done_server_def)

text \<open>
  Claim C3. When the first status check reports the check-in as done, \<^verbatim>\<open>processAccount\<close>
  returns the successful outcome marked \<^verbatim>\<open>alreadyCheckedIn\<close>, and what it put on the wire is
  what that status check did: one call, no check-in and no second status check.
\<close>

theorem already_checked_in_stops:
  assumes "createAxiosInstance lib cfg tok proxy = Inr cl"
    and "fst (checkAccountStatus lib cfg srv cl idx t) = Inr True"
  shows "processAccount lib cfg srv tok proxy idx t =
     (Inr \<lparr>success = True, alreadyCheckedIn = Some True, error = None\<rparr>,
      snd (checkAccountStatus lib cfg srv cl idx t)) \<and>
   calls (fst (snd (processAccount lib cfg srv tok proxy idx t))) = [(GET, statusEndpoint)]"
proof -
  obtain e1 t1 where c1: "checkAccountStatus lib cfg srv cl idx t = (Inr True, e1, t1)"
    using assms(2) by (cases "checkAccountStatus lib cfg srv cl idx t") auto
  have "processAccount lib cfg srv tok proxy idx t =
     (Inr \<lparr>success = True, alreadyCheckedIn = Some True, error = None\<rparr>, e1, t1)"
    by (simp add: processAccount_def assms(1) c1)
  with c1 checkAccountStatus_calls [OF c1] show ?thesis by simp
qed

text \<open>The theorem at the service where the check-in is already done.\<close>

theorem already_checked_in_stops_witness:
  "createAxiosInstance sample_library sample_config (ascii ''tok1'') Null = Inr sample_client \<and>
   fst (checkAccountStatus sample_library sample_config done_server sample_client 1 0) = Inr True \<and>
   processAccount sample_library sample_config done_server (ascii ''tok1'') Null 1 0 =
     (Inr \<lparr>success = True, alreadyCheckedIn = Some True, error = None\<rparr>,
      [Send sample_client GET statusEndpoint 0], 1)"
proof -
  have h: "checkAccountStatus sample_library sample_config done_server sample_client 1 0 =
          (Inr True, [Send sample_client GET statusEndpoint 0], 1)"
    by (simp add: request.simps checkAccountStatus_def done_server_def)
  then have "fst (checkAccountStatus sample_library sample_config done_server sample_client 1 0) =
      Inr True"
    by simp
  from already_checked_in_stops [OF sample_client_built this] h sample_client_built
  show ?thesis by simp
qed

text \<open>
  Claim C4. When the first status check reports not done and the check-in call returns
  (code 200), the outcome follows the second status check: not done gives the failed
  outcome with error \<^verbatim>\<open>Verification failed\<close>, done gives the successful outcome with
  \<^verbatim>\<open>alreadyCheckedIn\<close> false. Conversely that successful outcome arises only this way: the
  first check reported not done, the check-in returned, and the second check reported done.
\<close>

theorem verification_outcome:
  assumes "createAxiosInstance lib cfg tok proxy = Inr cl"
  shows "(checkAccountStatus lib cfg srv cl idx t = (Inr False, e1, t1) \<and>
    performDailyCheckin lib cfg srv cl idx t1 = (Inr True, e2, t2) \<and>
    checkAccountStatus lib cfg srv cl idx t2 = (Inr verified, e3, t3) \<longrightarrow>
    processAccount lib cfg srv tok proxy idx t =
      (Inr (if verified
            then \<lparr>success = True, alreadyCheckedIn = Some False, error = None\<rparr>
            else \<lparr>success = False, alreadyCheckedIn = None, error = Some ''Verification failed''\<rparr>),
       e1 @ e2 @ e3, t3)) \<and>
   ((case fst (processAccount lib cfg srv tok proxy idx t) of
       Inl thrown \<Rightarrow> False
     | Inr result \<Rightarrow> success result \<and> alreadyCheckedIn result = Some False) \<longrightarrow>
    (\<exists>e1 t1 e2 t2 e3 t3.
       checkAccountStatus lib cfg srv cl idx t = (Inr False, e1, t1) \<and>
       performDailyCheckin lib cfg srv cl idx t1 = (Inr True, e2, t2) \<and>
       checkAccountStatus lib cfg srv cl idx t2 = (Inr True, e3, t3)))"
proof (intro conjI impI)
  assume "checkAccountStatus lib cfg srv cl idx t = (Inr False, e1, t1) \<and>
    performDailyCheckin lib cfg srv cl idx t1 = (Inr True, e2, t2) \<and>
    checkAccountStatus lib cfg srv cl idx t2 = (Inr verified, e3, t3)"
  then show "processAccount lib cfg srv tok proxy idx t =
      (Inr (if verified
            then \<lparr>success = True, alreadyCheckedIn = Some False, error = None\<rparr>
            else \<lparr>success = False, alreadyCheckedIn = None, error = Some ''Verification failed''\<rparr>),
       e1 @ e2 @ e3, t3)"
    by (simp add: processAccount_def assms)
next
  assume ok: "case fst (processAccount lib cfg srv tok proxy idx t) of
       Inl thrown \<Rightarrow> False
     | Inr result \<Rightarrow> success result \<and> alreadyCheckedIn result = Some False"
  obtain r1 e1 t1 where c1: "checkAccountStatus lib cfg srv cl idx t = (r1, e1, t1)"
    by (cases "checkAccountStatus lib cfg srv cl idx t")
  obtain r2 e2 t2 where c2: "performDailyCheckin lib cfg srv cl idx t1 = (r2, e2, t2)"
    by (cases "performDailyCheckin lib cfg srv cl idx t1")
  obtain r3 e3 t3 where c3: "checkAccountStatus lib cfg srv cl idx t2 = (r3, e3, t3)"
    by (cases "checkAccountStatus lib cfg srv cl idx t2")
  from ok have "r1 = Inr False \<and> r2 = Inr True \<and> r3 = Inr True"
    using performDailyCheckin_True [of lib cfg srv cl idx t1 _ e2 t2]
    by (cases r1; cases r2; cases r3)
      (auto simp add: processAccount_def assms c1 c2 c3 split: if_splits)
  with c1 c2 c3 show "\<exists>e1 t1 e2 t2 e3 t3.
       checkAccountStatus lib cfg srv cl idx t = (Inr False, e1, t1) \<and>
       performDailyCheckin lib cfg srv cl idx t1 = (Inr True, e2, t2) \<and>
       checkAccountStatus lib cfg srv cl idx t2 = (Inr True, e3, t3)"
    by simp
qed

text \<open>
  The theorem at the service that accepts the check-in and still reports it as not done
  (verification fails), and its converse part at the service that then reports it as done.
\<close>

theorem verification_outcome_witness:
  "createAxiosInstance sample_library sample_config (ascii ''tok1'') Null = Inr sample_client \<and>
   checkAccountStatus sample_library sample_config stale_server sample_client 1 0 =
     (Inr False, [Send sample_client GET statusEndpoint 0], 1) \<and>
   performDailyCheckin sample_library sample_config stale_server sample_client 1 1 =
     (Inr True, [Send sample_client POST checkinEndpoint 0], 2) \<and>
   checkAccountStatus sample_library sample_config stale_server sample_client 1 2 =
     (Inr False, [Send sample_client GET statusEndpoint 0], 3) \<and>
   fst (processAccount sample_library sample_config stale_server (ascii ''tok1'') Null 1 0) =
     Inr \<lparr>success = False, alreadyCheckedIn = None, error = Some ''Verification failed''\<rparr> \<and>
   fst (processAccount sample_library sample_config flaky_server (ascii ''tok1'') Null 1 0) =
     Inr \<lparr>success = True, alreadyCheckedIn = Some False, error = None\<rparr> \<and>
   fst (checkAccountStatus sample_library sample_config flaky_server sample_client 1 4) = Inr True"
proof -
  let ?cl = sample_client
  have c1: "checkAccountStatus sample_library sample_config stale_server ?cl 1 0 =
     (Inr False, [Send ?cl GET statusEndpoint 0], 1)"
    by (simp add: request.simps checkAccountStatus_def stale_server_def)
  have c2: "performDailyCheckin sample_library sample_config stale_server ?cl 1 1 =
     (Inr True, [Send ?cl POST checkinEndpoint 0], 2)"
    by (simp add: request.simps performDailyCheckin_def stale_server_def)
  have c3: "checkAccountStatus sample_library sample_config stale_server ?cl 1 2 =
     (Inr False, [Send ?cl GET statusEndpoint 0], 3)"
    by (simp add: request.simps checkAccountStatus_def stale_server_def)
  have d1: "checkAccountStatus sample_library sample_config flaky_server ?cl 1 0 =
            (Inr False,
             [Send ?cl GET statusEndpoint 0, Backoff 1 2000, Send ?cl GET statusEndpoint 1,
              Backoff 2 4000, Send ?cl GET statusEndpoint 2], 3)"
    by (simp add: sample_eval)
  have d2: "performDailyCheckin sample_library sample_config flaky_server ?cl 1 3 =
            (Inr True, [Send ?cl POST checkinEndpoint 0], 4)"
    by (simp add: sample_eval)
  have d3: "checkAccountStatus sample_library sample_config flaky_server ?cl 1 4 =
            (Inr True, [Send ?cl GET statusEndpoint 0], 5)"
    by (simp add: sample_eval)
  show ?thesis
    using c1 c2 c3 d1 d2 d3 sample_client_built
      verification_outcome [OF sample_client_built, of stale_server 1 0
        "[Send ?cl GET statusEndpoint 0]" 1
        "[Send ?cl POST checkinEndpoint 0]" 2 False
        "[Send ?cl GET statusEndpoint 0]" 3]
      verification_outcome [OF sample_client_built, of flaky_server 1 0
        "[Send ?cl GET statusEndpoint 0, Backoff 1 2000, Send ?cl GET statusEndpoint 1,
              Backoff 2 4000, Send ?cl GET statusEndpoint 2]" 3
        "[Send ?cl POST checkinEndpoint 0]" 4 True
        "[Send ?cl GET statusEndpoint 0]" 5]
    by simp
qed

section \<open>Properties of the batch\<close>

lemma accountsLoop_done:
  "\<not> i < length tokens \<Longrightarrow> accountsLoop lib cfg srv tokens proxies i res t = (Inr res, [], t)"
  by (simp add: accountsLoop.simps [of lib cfg srv tokens proxies i res t])

lemma accountsLoop_step:
  assumes "i < length tokens"
    and "processAccount lib cfg srv (tokens ! i) (proxyFor cfg proxies i) (Suc i) t =
           (Inr result, evs, t1)"
  shows "accountsLoop lib cfg srv tokens proxies i res t =
     (fst (accountsLoop lib cfg srv tokens proxies (Suc i) (tally res result) t1),
      map (Account (Suc i)) evs @
        (if Suc i < length tokens then [Delay (delayBetweenAccounts cfg)] else []) @
        fst (snd (accountsLoop lib cfg srv tokens proxies (Suc i) (tally res result) t1)),
      snd (snd (accountsLoop lib cfg srv tokens proxies (Suc i) (tally res result) t1)))"
  using assms
  by (simp add: accountsLoop.simps [of lib cfg srv tokens proxies i res t] Let_def tally_def
      split: prod.split)

lemma accountsLoop_thrown:
  assumes "i < length tokens"
    and "processAccount lib cfg srv (tokens ! i) (proxyFor cfg proxies i) (Suc i) t =
           (Inl err, evs, t1)"
  shows "accountsLoop lib cfg srv tokens proxies i res t = (Inl err, map (Account (Suc i)) evs, t1)"
  using assms
  by (simp add: accountsLoop.simps [of lib cfg srv tokens proxies i res t] Let_def)




lemma processAccount_result:
  "fst (processAccount lib cfg srv tok proxy idx t) = Inl err \<longleftrightarrow>
   createAxiosInstance lib cfg tok proxy = Inl err"
proof (cases "createAxiosInstance lib cfg tok proxy")
  case (Inl e)
  then show ?thesis by (simp add: processAccount_thrown)
next
  case (Inr cl)
  obtain r1 e1 t1 where c1: "checkAccountStatus lib cfg srv cl idx t = (r1, e1, t1)"
    by (cases "checkAccountStatus lib cfg srv cl idx t")
  obtain r2 e2 t2 where c2: "performDailyCheckin lib cfg srv cl idx t1 = (r2, e2, t2)"
    by (cases "performDailyCheckin lib cfg srv cl idx t1")
  obtain r3 e3 t3 where c3: "checkAccountStatus lib cfg srv cl idx t2 = (r3, e3, t3)"
    by (cases "checkAccountStatus lib cfg srv cl idx t2")
  show ?thesis
    by (cases r1; cases r2; cases r3) (simp_all add: processAccount_def Inr c1 c2 c3)
qed

lemma processAccount_events:
  assumes "createAxiosInstance lib cfg tok proxy = Inr cl"
  shows "fst (snd (processAccount lib cfg srv tok proxy idx t)) \<noteq> [] \<and>
     (\<forall>cl' m ep k. Send cl' m ep k \<in> set (fst (snd (processAccount lib cfg srv tok proxy idx t))) \<longrightarrow>
        cl' = cl)"
proof -
  obtain r1 e1 t1 where c1: "checkAccountStatus lib cfg srv cl idx t = (r1, e1, t1)"
    by (cases "checkAccountStatus lib cfg srv cl idx t")
  obtain r2 e2 t2 where c2: "performDailyCheckin lib cfg srv cl idx t1 = (r2, e2, t2)"
    by (cases "performDailyCheckin lib cfg srv cl idx t1")
  obtain r3 e3 t3 where c3: "checkAccountStatus lib cfg srv cl idx t2 = (r3, e3, t3)"
    by (cases "checkAccountStatus lib cfg srv cl idx t2")
  have e1: "e1 = fst (snd (request lib cfg srv cl GET statusEndpoint 0 (timeout cl) t))"
    using checkAccountStatus_events [of lib cfg srv cl idx t] c1 by simp
  have e2: "e2 = fst (snd (request lib cfg srv cl POST checkinEndpoint 0 (timeout cl) t1))"
    using performDailyCheckin_events [of lib cfg srv cl idx t1] c2 by simp
  have e3: "e3 = fst (snd (request lib cfg srv cl GET statusEndpoint 0 (timeout cl) t2))"
    using checkAccountStatus_events [of lib cfg srv cl idx t2] c3 by simp
  have ne: "e1 \<noteq> []" unfolding e1 by (rule request_nonempty)
  have cl: "\<forall>cl' m ep k. Send cl' m ep k \<in> set (e1 @ e2 @ e3) \<longrightarrow> cl' = cl"
    unfolding e1 e2 e3 using request_client by fastforce
  have "fst (snd (processAccount lib cfg srv tok proxy idx t)) \<in> {e1, e1 @ e2, e1 @ e2 @ e3}"
    by (cases r1; cases r2; cases r3) (simp_all add: processAccount_def assms c1 c2 c3)
  with ne cl show ?thesis by auto
qed




lemma accountsLoop_returns:
  "(\<exists>res'. fst (accountsLoop lib cfg srv tokens proxies i res t) = Inr res') \<longleftrightarrow>
   (\<forall>j. i \<le> j \<and> j < length tokens \<longrightarrow>
      (\<exists>cl. createAxiosInstance lib cfg (tokens ! j) (proxyFor cfg proxies j) = Inr cl))"
proof (induction "length tokens - i" arbitrary: i res t)
  case 0
  then show ?case by (auto simp add: accountsLoop_done)
next
  case (Suc n)
  then have i: "i < length tokens" and n: "n = length tokens - Suc i" by simp_all
  obtain r es t1 where
    pa: "processAccount lib cfg srv (tokens ! i) (proxyFor cfg proxies i) (Suc i) t = (r, es, t1)"
    by (cases "processAccount lib cfg srv (tokens ! i) (proxyFor cfg proxies i) (Suc i) t")
  have split: "(\<forall>j. i \<le> j \<and> j < length tokens \<longrightarrow> P j) \<longleftrightarrow>
      P i \<and> (\<forall>j. Suc i \<le> j \<and> j < length tokens \<longrightarrow> P j)" for P
  proof
    assume a: "\<forall>j. i \<le> j \<and> j < length tokens \<longrightarrow> P j"
    with i show "P i \<and> (\<forall>j. Suc i \<le> j \<and> j < length tokens \<longrightarrow> P j)" by simp
  next
    assume b: "P i \<and> (\<forall>j. Suc i \<le> j \<and> j < length tokens \<longrightarrow> P j)"
    show "\<forall>j. i \<le> j \<and> j < length tokens \<longrightarrow> P j"
    proof (intro allI impI)
      fix j assume j: "i \<le> j \<and> j < length tokens"
      show "P j"
      proof (cases "j = i")
        case True
        with b show ?thesis by simp
      next
        case False
        with j have "Suc i \<le> j" by simp
        with b j show ?thesis by blast
      qed
    qed
  qed
  show ?case
  proof (cases r)
    case (Inl err)
    with pa have "createAxiosInstance lib cfg (tokens ! i) (proxyFor cfg proxies i) = Inl err"
      using processAccount_result [of lib cfg srv "tokens ! i" "proxyFor cfg proxies i" "Suc i" t err]
      by simp
    with accountsLoop_thrown [OF i pa [unfolded Inl], of res] show ?thesis
      by (simp add: split)
  next
    case (Inr result)
    have "\<exists>cl. createAxiosInstance lib cfg (tokens ! i) (proxyFor cfg proxies i) = Inr cl"
    proof (cases "createAxiosInstance lib cfg (tokens ! i) (proxyFor cfg proxies i)")
      case (Inl err)
      with processAccount_thrown [OF Inl, of srv "Suc i" t] pa Inr show ?thesis by simp
    next
      case (Inr cl)
      then show ?thesis by blast
    qed
    with Suc.hyps(1) [OF n, of "tally res result" t1] show ?thesis
      by (simp add: accountsLoop_step [OF i pa [unfolded Inr]] split)
  qed
qed

lemma accountsLoop_sends:
  "Account j (Send cl m ep k) \<in> set (fst (snd (accountsLoop lib cfg srv tokens proxies i res t))) \<Longrightarrow>
   i < j \<and> j \<le> length tokens \<and>
   createAxiosInstance lib cfg (tokens ! (j - 1)) (proxyFor cfg proxies (j - 1)) = Inr cl"
proof (induction "length tokens - i" arbitrary: i res t)
  case 0
  then show ?case by (simp add: accountsLoop_done)
next
  case (Suc n)
  then have i: "i < length tokens" and n: "n = length tokens - Suc i" by simp_all
  obtain r es t1 where
    pa: "processAccount lib cfg srv (tokens ! i) (proxyFor cfg proxies i) (Suc i) t = (r, es, t1)"
    by (cases "processAccount lib cfg srv (tokens ! i) (proxyFor cfg proxies i) (Suc i) t")
  have here: "j = Suc i \<and>
      createAxiosInstance lib cfg (tokens ! i) (proxyFor cfg proxies i) = Inr cl"
    if "Account j (Send cl m ep k) \<in> set (map (Account (Suc i)) es)"
  proof -
    from that have j: "j = Suc i" and mem: "Send cl m ep k \<in> set es" by auto
    show ?thesis
    proof (cases "createAxiosInstance lib cfg (tokens ! i) (proxyFor cfg proxies i)")
      case (Inl err)
      with processAccount_thrown [OF Inl, of srv "Suc i" t] pa mem show ?thesis by simp
    next
      case (Inr cl')
      with processAccount_events [OF Inr, of srv "Suc i" t] pa mem j show ?thesis by auto
    qed
  qed
  show ?case
  proof (cases r)
    case (Inl err)
    with Suc.prems accountsLoop_thrown [OF i pa [unfolded Inl], of res] here i
    show ?thesis by auto
  next
    case (Inr result)
    from Suc.prems consider
      (now) "Account j (Send cl m ep k) \<in> set (map (Account (Suc i)) es)"
      | (later) "Account j (Send cl m ep k) \<in>
          set (fst (snd (accountsLoop lib cfg srv tokens proxies (Suc i) (tally res result) t1)))"
      by (auto simp add: accountsLoop_step [OF i pa [unfolded Inr]] split: if_splits)
    then show ?thesis
    proof cases
      case now
      with here i show ?thesis by auto
    next
      case later
      from Suc.hyps(1) [OF n later] show ?thesis by simp
    qed
  qed
qed


lemma processAllAccounts_loaded:
  "loadTokens (dataFile w run) = Inr tokens \<Longrightarrow>
   processAllAccounts lib cfg w run t =
     (case fst (accountsLoop lib cfg (service w) tokens (loadProxies cfg (proxyFile w run)) 0
                  \<lparr>total = length tokens, successful = 0, failed = 0, alreadyCheckedInCount = 0\<rparr> t) of
        Inl thrown \<Rightarrow> Thrown thrown
      | Inr res \<Rightarrow> Returned res,
      snd (accountsLoop lib cfg (service w) tokens (loadProxies cfg (proxyFile w run)) 0
             \<lparr>total = length tokens, successful = 0, failed = 0, alreadyCheckedInCount = 0\<rparr> t))"
  by (simp add: processAllAccounts_def split: prod.split sum.split)





text \<open>The sample worlds, evaluated.\<close>

lemma sample_tokens:
  "loadTokens (dataFile sample_world run) = Inr [ascii ''tok1'', ascii ''tok2'']"
  by (simp add: sample_world_def loadTokens_def sample_file_def ascii_def trim_def
      isWhiteSpace_def startsWith_def)

lemma sample_proxies:
  "loadProxies sample_config (proxyFile sample_world run) = [ascii ''http://10.0.0.1:8080'']"
  by (simp add: sample_world_def loadProxies_def sample_config_def ascii_def trim_def
      isWhiteSpace_def startsWith_def)


lemma proxied_client_built:
  "createAxiosInstance sample_library sample_config (ascii ''tok1'')
     (Value (ascii ''http://10.0.0.1:8080'')) = Inr proxied_client"
  by (simp add: createAxiosInstance_def sample_library_def sample_config_def proxied_client_def
      hasScheme_def isSchemeChar_def ascii_def)

lemma second_client_built:
  "createAxiosInstance sample_library sample_config (ascii ''tok2'') Null = Inr second_client"
  by (simp add: createAxiosInstance_def sample_config_def second_client_def)

lemma sample_account_1:
  "processAccount sample_library sample_config flaky_server (ascii ''tok1'')
     (Value (ascii ''http://10.0.0.1:8080'')) (Suc 0) 0 =
   (Inr \<lparr>success = True, alreadyCheckedIn = Some False, error = None\<rparr>,
    [Send proxied_client GET statusEndpoint 0, Backoff 1 2000,
     Send proxied_client GET statusEndpoint 1, Backoff 2 4000,
     Send proxied_client GET statusEndpoint 2,
     Send proxied_client POST checkinEndpoint 0,
     Send proxied_client GET statusEndpoint 0], 5)"
  by (simp add: processAccount_def proxied_client_built)
    (simp add: request.simps checkAccountStatus_def performDailyCheckin_def sample_config_def
      retryCondition_def sample_library_def retryDelayFn_def error_503_def flaky_server_def
      proxied_client_def)

lemma sample_account_2:
  "processAccount sample_library sample_config flaky_server (ascii ''tok2'') Null (Suc (Suc 0)) 5 =
   (Inr \<lparr>success = True, alreadyCheckedIn = Some True, error = None\<rparr>,
    [Send second_client GET statusEndpoint 0], 6)"
  by (simp add: processAccount_def second_client_built)
    (simp add: request.simps checkAccountStatus_def flaky_server_def)

lemma sample_proxyFor:
  "proxyFor sample_config [ascii ''http://10.0.0.1:8080''] 0 = Value (ascii ''http://10.0.0.1:8080'')"
  "proxyFor sample_config [ascii ''http://10.0.0.1:8080''] (Suc 0) = Null"
  by (simp_all add: proxyFor_def index_def sample_config_def)

lemma sample_batch:
  "processAllAccounts sample_library sample_config sample_world run 0 =
   (Returned \<lparr>total = 2, successful = 2, failed = 0, alreadyCheckedInCount = 1\<rparr>,
    [Account 1 (Send proxied_client GET statusEndpoint 0),
     Account 1 (Backoff 1 2000),
     Account 1 (Send proxied_client GET statusEndpoint 1),
     Account 1 (Backoff 2 4000),
     Account 1 (Send proxied_client GET statusEndpoint 2),
     Account 1 (Send proxied_client POST checkinEndpoint 0),
     Account 1 (Send proxied_client GET statusEndpoint 0),
     Delay 5000,
     Account 2 (Send second_client GET statusEndpoint 0)],
    6)"
proof -
  have d: "delayBetweenAccounts sample_config = 5000" by (simp add: sample_config_def)
  have s: "service sample_world = flaky_server" by (simp add: sample_world_def)
  show ?thesis
    by (simp add: processAllAccounts_def sample_tokens sample_proxies s
        accountsLoop.simps sample_proxyFor d sample_account_1 sample_account_2)
qed


lemma bad_proxy_batch:
  "processAllAccounts sample_library sample_config bad_proxy_world run 0 =
   (Thrown (TypeError ''Invalid URL''), [], 0)"
proof -
  have t: "loadTokens (dataFile bad_proxy_world run) = Inr [ascii ''tok1'', ascii ''tok2'']"
    using sample_tokens [of run] by (simp add: bad_proxy_world_def sample_world_def)
  have p: "loadProxies sample_config (proxyFile bad_proxy_world run) = [bad_proxy]"
    by (simp add: bad_proxy_world_def loadProxies_def sample_config_def bad_proxy_def ascii_def
        trim_def isWhiteSpace_def startsWith_def)
  have f: "proxyFor sample_config [bad_proxy] 0 = Value bad_proxy"
    by (simp add: proxyFor_def index_def sample_config_def)
  show ?thesis
    by (simp add: processAllAccounts_def t p accountsLoop.simps f
        processAccount_thrown [OF bad_proxy_thrown])
qed









lemma loadProxies_entries: "l \<in> set (loadProxies cfg f) \<Longrightarrow> l \<noteq> []"
  by (auto simp: loadProxies_def split: if_splits file_state.splits)

text \<open>
  Claim C10. The proxy for the token at index \<open>i\<close> (0-based) is the \<open>i\<close>-th loaded proxy when
  \<^verbatim>\<open>config.useProxy\<close> is set and \<open>i\<close> is less than the number of loaded proxies, and
  \<^verbatim>\<open>null\<close> otherwise; it is never the \<^verbatim>\<open>undefined\<close> of a read past the end of the list. In a
  batch, however it ends, every request of account \<open>j\<close> goes through a client whose agent is
  that proxy, and through a client without agent when there is none; with \<^verbatim>\<open>useProxy\<close> off
  no client has an agent.
\<close>

theorem proxy_assignment:
  "proxyFor cfg proxies i =
     (if useProxy cfg \<and> i < length proxies then Value (proxies ! i) else Null) \<and>
   proxyFor cfg proxies i \<noteq> Undefined \<and>
   (loadTokens (dataFile w run) = Inr tokens \<and>
    processAllAccounts lib cfg w run t = (ending, evs, t') \<and>
    Account j (Send cl m ep k) \<in> set evs \<longrightarrow>
      httpsAgent cl =
        (if useProxy cfg \<and> j - 1 < length (loadProxies cfg (proxyFile w run))
         then Some (loadProxies cfg (proxyFile w run) ! (j - 1)) else None) \<and>
      (\<not> useProxy cfg \<longrightarrow> httpsAgent cl = None))"
proof -
  have a: "proxyFor cfg proxies i =
     (if useProxy cfg \<and> i < length proxies then Value (proxies ! i) else Null)"
    by (simp add: proxyFor_def index_def)
  then have b: "proxyFor cfg proxies i \<noteq> Undefined" by simp
  have c: "httpsAgent cl =
        (if useProxy cfg \<and> j - 1 < length (loadProxies cfg (proxyFile w run))
         then Some (loadProxies cfg (proxyFile w run) ! (j - 1)) else None) \<and>
      (\<not> useProxy cfg \<longrightarrow> httpsAgent cl = None)"
    if h: "loadTokens (dataFile w run) = Inr tokens \<and>
      processAllAccounts lib cfg w run t = (ending, evs, t') \<and>
      Account j (Send cl m ep k) \<in> set evs"
  proof -
    let ?ps = "loadProxies cfg (proxyFile w run)"
    from h have evs: "evs = fst (snd (accountsLoop lib cfg (service w) tokens ?ps 0
           \<lparr>total = length tokens, successful = 0, failed = 0, alreadyCheckedInCount = 0\<rparr> t))"
      by (auto simp add: processAllAccounts_loaded)
    from h have "Account j (Send cl m ep k) \<in> set evs" by simp
    from accountsLoop_sends [OF this [unfolded evs]]
    have cl: "createAxiosInstance lib cfg (tokens ! (j - 1)) (proxyFor cfg ?ps (j - 1)) = Inr cl"
      by simp
    have ne: "j - 1 < length ?ps \<Longrightarrow> ?ps ! (j - 1) \<noteq> []"
      using loadProxies_entries [of "?ps ! (j - 1)" cfg "proxyFile w run"] by simp
    show ?thesis
      using ne cl
      by (auto simp add: createAxiosInstance_def proxyFor_def index_def
          split: if_splits option.splits)
  qed
  from a b c show ?thesis by blast
qed

text \<open>
  The theorem at the sample world, which has two tokens and one proxy: the first account's
  client has the proxy as agent, the second account's client has none.
\<close>

theorem proxy_assignment_witness:
  "proxyFor sample_config [ascii ''http://10.0.0.1:8080''] 0 = Value (ascii ''http://10.0.0.1:8080'') \<and>
   proxyFor sample_config [ascii ''http://10.0.0.1:8080''] 1 = Null \<and>
   loadTokens (dataFile sample_world 0) = Inr [ascii ''tok1'', ascii ''tok2''] \<and>
   (\<exists>ending evs t' cl1 cl2.
      processAllAccounts sample_library sample_config sample_world 0 0 = (ending, evs, t') \<and>
      Account 1 (Send cl1 GET statusEndpoint 0) \<in> set evs \<and>
      httpsAgent cl1 = Some (ascii ''http://10.0.0.1:8080'') \<and>
      Account 2 (Send cl2 GET statusEndpoint 0) \<in> set evs \<and>
      httpsAgent cl2 = None)"
proof -
  let ?p = "ascii ''http://10.0.0.1:8080''"
  have a: "proxyFor sample_config [?p] 0 = Value ?p"
    using proxy_assignment [where cfg = sample_config and proxies = "[?p]" and i = 0,
        THEN conjunct1]
    by (simp add: sample_config_def)
  have b: "proxyFor sample_config [?p] 1 = Null"
    using proxy_assignment [where cfg = sample_config and proxies = "[?p]" and i = 1,
        THEN conjunct1]
    by simp
  obtain ending evs t' where
    r: "processAllAccounts sample_library sample_config sample_world 0 0 = (ending, evs, t')"
    and m1: "Account 1 (Send proxied_client GET statusEndpoint 0) \<in> set evs"
    and m2: "Account 2 (Send second_client GET statusEndpoint 0) \<in> set evs"
    by (rule that [OF sample_batch [of 0]]) simp_all
  have u: "useProxy sample_config" by (simp add: sample_config_def)
  have c1: "httpsAgent proxied_client = Some ?p"
    using proxy_assignment [where cfg = sample_config and w = sample_world and run = 0
        and lib = sample_library and t = 0 and j = 1 and cl = proxied_client,
        THEN conjunct2, THEN conjunct2, THEN mp, OF conjI [OF sample_tokens conjI [OF r m1]]]
    by (simp add: sample_proxies u)
  have c2: "httpsAgent second_client = None"
    using proxy_assignment [where cfg = sample_config and w = sample_world and run = 0
        and lib = sample_library and t = 0 and j = 2 and cl = second_client,
        THEN conjunct2, THEN conjunct2, THEN mp, OF conjI [OF sample_tokens conjI [OF r m2]]]
    by (simp add: sample_proxies u)
  show ?thesis
    using a b c1 c2 r m1 m2 sample_tokens [of 0] by blast
qed

section \<open>Properties of the outer loop\<close>

lemma nextRuns_append: "nextRuns (xs @ ys) = nextRuns xs @ nextRuns ys"
  by (induction xs rule: nextRuns.induct) simp_all

lemma nextRuns_accounts: "nextRuns (map (Account i) evs) = []"
  by (induction evs) simp_all

lemma accountsLoop_nextRuns:
  "nextRuns (fst (snd (accountsLoop lib cfg srv tokens proxies i res t))) = []"
proof (induction "length tokens - i" arbitrary: i res t)
  case 0
  then show ?case by (simp add: accountsLoop_done)
next
  case (Suc n)
  then have i: "i < length tokens" and n: "n = length tokens - Suc i" by simp_all
  obtain r es t1 where
    pa: "processAccount lib cfg srv (tokens ! i) (proxyFor cfg proxies i) (Suc i) t = (r, es, t1)"
    by (cases "processAccount lib cfg srv (tokens ! i) (proxyFor cfg proxies i) (Suc i) t")
  show ?case
  proof (cases r)
    case (Inl err)
    then show ?thesis
      by (simp add: accountsLoop_thrown [OF i pa [unfolded Inl]] nextRuns_accounts)
  next
    case (Inr result)
    from Suc.hyps(1) [OF n, of "tally res result" t1] show ?thesis
      by (simp add: accountsLoop_step [OF i pa [unfolded Inr]] nextRuns_append nextRuns_accounts)
  qed
qed

lemma processAllAccounts_nextRuns:
  "nextRuns (fst (snd (processAllAccounts lib cfg w run t))) = []"
proof (cases "loadTokens (dataFile w run)")
  case (Inl status)
  then show ?thesis by (simp add: processAllAccounts_def)
next
  case (Inr tokens)
  then show ?thesis
    by (simp add: processAllAccounts_loaded accountsLoop_nextRuns)
qed

lemma loadTokens_readable:
  "(\<exists>tokens. loadTokens f = Inr tokens) \<longleftrightarrow> readable f"
  "loadTokens f = Inl status \<longleftrightarrow> \<not> readable f \<and> status = 1"
  by (auto simp: loadTokens_def readable_def split: file_state.splits)

lemma processAllAccounts_clients:
  "loadTokens (dataFile w run) = Inr tokens \<Longrightarrow>
   (\<exists>res. fst (processAllAccounts lib cfg w run t) = Returned res) \<longleftrightarrow>
   (\<forall>i<length tokens. \<exists>cl.
      createAxiosInstance lib cfg (tokens ! i) (proxyFor cfg (loadProxies cfg (proxyFile w run)) i) =
        Inr cl)"
  using accountsLoop_returns [of lib cfg "service w" tokens "loadProxies cfg (proxyFile w run)" 0
      "\<lparr>total = length tokens, successful = 0, failed = 0, alreadyCheckedInCount = 0\<rparr>" t]
  by (auto simp add: processAllAccounts_loaded split: sum.splits)

lemma built_iff:
  "(case x of Inl thrown \<Rightarrow> False | Inr cl \<Rightarrow> True) \<longleftrightarrow> (\<exists>cl. x = Inr cl)"
  by (cases x) simp_all

lemma completes_iff:
  "loadTokens (dataFile w r) = Inr tokens \<Longrightarrow>
   completes lib cfg w r \<longleftrightarrow>
   (\<forall>i<length tokens. \<exists>cl.
      createAxiosInstance lib cfg (tokens ! i) (proxyFor cfg (loadProxies cfg (proxyFile w r)) i) =
        Inr cl)"
  by (simp add: completes_def list_all_length assignments_def built_iff)

lemma processAllAccounts_returns:
  "(\<exists>res. fst (processAllAccounts lib cfg w run t) = Returned res) \<longleftrightarrow> completes lib cfg w run"
proof (cases "loadTokens (dataFile w run)")
  case (Inl status)
  then show ?thesis by (simp add: processAllAccounts_def completes_def)
next
  case (Inr tokens)
  from processAllAccounts_clients [OF Inr] completes_iff [OF Inr] show ?thesis
    by simp
qed

lemma processAllAccounts_exits:
  "fst (processAllAccounts lib cfg w run t) = Exited status \<longleftrightarrow>
     \<not> readable (dataFile w run) \<and> status = 1"
proof (cases "loadTokens (dataFile w run)")
  case (Inl s)
  then show ?thesis
    using loadTokens_readable(2) [where f = "dataFile w run" and status = s]
    by (auto simp add: processAllAccounts_def)
next
  case (Inr tokens)
  then have "readable (dataFile w run)"
    using loadTokens_readable(1) by blast
  with Inr show ?thesis
    by (simp add: processAllAccounts_loaded split: sum.splits)
qed

lemma processAllAccounts_throws:
  "(\<exists>err. fst (processAllAccounts lib cfg w run t) = Thrown err) \<longleftrightarrow>
     readable (dataFile w run) \<and> \<not> completes lib cfg w run"
  using processAllAccounts_returns [of lib cfg w run t]
    processAllAccounts_exits [of lib cfg w run t]
  by (cases "fst (processAllAccounts lib cfg w run t)") (auto simp: completes_def readable_def loadTokens_def split: file_state.splits)


lemma all_less_Suc_shift:
  "(\<forall>r<Suc n. P (run + r)) \<longleftrightarrow> P run \<and> (\<forall>r<n. P (Suc run + r))"
proof
  assume a: "\<forall>r<Suc n. P (run + r)"
  then have "P (run + 0)" by blast
  moreover have "P (Suc run + r)" if "r < n" for r
    using a [rule_format, of "Suc r"] that by simp
  ultimately show "P run \<and> (\<forall>r<n. P (Suc run + r))" by simp
next
  assume b: "P run \<and> (\<forall>r<n. P (Suc run + r))"
  show "\<forall>r<Suc n. P (run + r)"
  proof (intro allI impI)
    fix r assume "r < Suc n"
    then show "P (run + r)" using b by (cases r) auto
  qed
qed

lemma main_returned:
  "processAllAccounts lib cfg w run t = (Returned res, evs, t') \<Longrightarrow>
   main (Suc n) lib cfg w run t =
     (fst (main n lib cfg w (Suc run) t'),
      evs @ NextRun (nextRunDelayHours cfg * 60 * 60 * 1000) # snd (main n lib cfg w (Suc run) t'))"
  by (simp add: Let_def case_prod_beta)

lemma main_thrown:
  "processAllAccounts lib cfg w run t = (Thrown err, evs, t') \<Longrightarrow>
   main (Suc n) lib cfg w run t = (Stopped 1, evs)"
  by simp

lemma main_exited:
  "processAllAccounts lib cfg w run t = (Exited status, evs, t') \<Longrightarrow>
   main (Suc n) lib cfg w run t = (Stopped status, evs)"
  by simp

lemma main_not_completed:
  assumes "\<not> completes lib cfg w run"
  shows "fst (main (Suc n) lib cfg w run t) = Stopped 1"
proof -
  obtain c evs t' where p: "processAllAccounts lib cfg w run t = (c, evs, t')"
    by (cases "processAllAccounts lib cfg w run t")
  show ?thesis
  proof (cases c)
    case (Returned res)
    with p assms processAllAccounts_returns [of lib cfg w run t] show ?thesis by simp
  next
    case (Thrown err)
    with p show ?thesis by (simp add: main_thrown del: main.simps)
  next
    case (Exited status)
    with p processAllAccounts_exits [of lib cfg w run t status] show ?thesis
      by (simp add: main_exited del: main.simps)
  qed
qed

lemma main_state:
  "fst (main n lib cfg w run t) =
     (if \<forall>r<n. completes lib cfg w (run + r) then Running else Stopped 1)"
proof (induction n arbitrary: run t)
  case 0
  show ?case by simp
next
  case (Suc n)
  show ?case
  proof (cases "completes lib cfg w run")
    case True
    then obtain res where "fst (processAllAccounts lib cfg w run t) = Returned res"
      using processAllAccounts_returns [of lib cfg w run t] by blast
    then obtain evs t' where
      r: "processAllAccounts lib cfg w run t = (Returned res, evs, t')"
      by (cases "processAllAccounts lib cfg w run t") auto
    from True Suc [of "Suc run" t'] show ?thesis
      by (simp add: main_returned [OF r] all_less_Suc_shift [of n "\<lambda>r. completes lib cfg w r" run]
          del: main.simps)
  next
    case False
    with main_not_completed [OF False, of n t] show ?thesis
      by (simp add: all_less_Suc_shift [of n "\<lambda>r. completes lib cfg w r" run] del: main.simps)
  qed
qed

lemma main_nextRuns:
  "\<forall>r<n. completes lib cfg w (run + r) \<Longrightarrow>
   nextRuns (snd (main n lib cfg w run t)) = replicate n (nextRunDelayHours cfg * 60 * 60 * 1000)"
proof (induction n arbitrary: run t)
  case 0
  show ?case by simp
next
  case (Suc n)
  from Suc.prems have here: "completes lib cfg w run"
    and later: "\<forall>r<n. completes lib cfg w (Suc run + r)"
    by (simp_all add: all_less_Suc_shift [of n "\<lambda>r. completes lib cfg w r" run])
  from here obtain res where "fst (processAllAccounts lib cfg w run t) = Returned res"
    using processAllAccounts_returns [of lib cfg w run t] by blast
  then obtain evs t' where
    r: "processAllAccounts lib cfg w run t = (Returned res, evs, t')"
    by (cases "processAllAccounts lib cfg w run t") auto
  have e: "nextRuns evs = []"
    using processAllAccounts_nextRuns [of lib cfg w run t] r by simp
  from Suc.IH [OF later, of t'] show ?case
    by (simp add: main_returned [OF r] e nextRuns_append del: main.simps)
qed

text \<open>
  Claim C9, as amended. After every batch run that returns, the program sets a timer of
  exactly \<open>nextRunDelayHours * 60 * 60 * 1000\<close> milliseconds and then runs the whole batch
  again; while every batch run returns this goes on for any number of runs. The process
  exits, always with status 1, exactly when a batch run does not return: when it throws,
  which it does if a client cannot be created for some account, or when \<^verbatim>\<open>loadTokens\<close>
  finds \<^verbatim>\<open>data.txt\<close> missing or unreadable and ends the process itself, inside a batch run
  that throws nothing.
\<close>

theorem main_repeats:
  "((\<forall>r<n. completes lib cfg w (run + r)) \<longrightarrow>
      fst (main n lib cfg w run t) = Running \<and>
      nextRuns (snd (main n lib cfg w run t)) =
        replicate n (nextRunDelayHours cfg * 60 * 60 * 1000)) \<and>
   (fst (main n lib cfg w run t) = Stopped status \<longleftrightarrow>
      status = 1 \<and> (\<exists>r<n. \<not> completes lib cfg w (run + r))) \<and>
   (processAllAccounts lib cfg w run t = (Returned res, evs, t') \<longrightarrow>
      main (Suc n) lib cfg w run t =
        (fst (main n lib cfg w (Suc run) t'),
         evs @ NextRun (nextRunDelayHours cfg * 60 * 60 * 1000) #
         snd (main n lib cfg w (Suc run) t'))) \<and>
   (processAllAccounts lib cfg w run t = (Thrown err, evs, t') \<longrightarrow>
      main (Suc n) lib cfg w run t = (Stopped 1, evs)) \<and>
   (processAllAccounts lib cfg w run t = (Exited status, evs, t') \<longrightarrow>
      main (Suc n) lib cfg w run t = (Stopped status, evs)) \<and>
   (completes lib cfg w run \<longleftrightarrow>
      (\<exists>res. fst (processAllAccounts lib cfg w run t) = Returned res)) \<and>
   (\<not> readable (dataFile w run) \<longleftrightarrow> fst (processAllAccounts lib cfg w run t) = Exited 1) \<and>
   (readable (dataFile w run) \<and> \<not> completes lib cfg w run \<longleftrightarrow>
      (\<exists>err. fst (processAllAccounts lib cfg w run t) = Thrown err))"
proof (intro conjI impI)
  assume a: "\<forall>r<n. completes lib cfg w (run + r)"
  then show "fst (main n lib cfg w run t) = Running" by (simp add: main_state)
  from a show "nextRuns (snd (main n lib cfg w run t)) =
      replicate n (nextRunDelayHours cfg * 60 * 60 * 1000)"
    by (rule main_nextRuns)
next
  show "fst (main n lib cfg w run t) = Stopped status \<longleftrightarrow>
      status = 1 \<and> (\<exists>r<n. \<not> completes lib cfg w (run + r))"
    by (auto simp add: main_state)
next
  assume "processAllAccounts lib cfg w run t = (Returned res, evs, t')"
  then show "main (Suc n) lib cfg w run t =
        (fst (main n lib cfg w (Suc run) t'),
         evs @ NextRun (nextRunDelayHours cfg * 60 * 60 * 1000) #
         snd (main n lib cfg w (Suc run) t'))"
    by (rule main_returned)
next
  assume "processAllAccounts lib cfg w run t = (Thrown err, evs, t')"
  then show "main (Suc n) lib cfg w run t = (Stopped 1, evs)" by (rule main_thrown)
next
  assume "processAllAccounts lib cfg w run t = (Exited status, evs, t')"
  then show "main (Suc n) lib cfg w run t = (Stopped status, evs)" by (rule main_exited)
next
  show "completes lib cfg w run \<longleftrightarrow>
      (\<exists>res. fst (processAllAccounts lib cfg w run t) = Returned res)"
    using processAllAccounts_returns [of lib cfg w run t] by simp
next
  show "\<not> readable (dataFile w run) \<longleftrightarrow> fst (processAllAccounts lib cfg w run t) = Exited 1"
    using processAllAccounts_exits [of lib cfg w run t 1] by simp
next
  show "readable (dataFile w run) \<and> \<not> completes lib cfg w run \<longleftrightarrow>
      (\<exists>err. fst (processAllAccounts lib cfg w run t) = Thrown err)"
    using processAllAccounts_throws [of lib cfg w run t] by simp
qed

lemma sample_completes: "completes sample_library sample_config sample_world r"
  by (simp add: completes_def sample_tokens sample_proxies assignments_def sample_proxyFor
      proxied_client_built second_client_built upt_conv_Cons del: upt_Suc)

lemma bad_proxy_not_completes: "\<not> completes sample_library sample_config bad_proxy_world r"
  using processAllAccounts_returns [of sample_library sample_config bad_proxy_world r 0]
  by (simp add: bad_proxy_batch)

text \<open>
  The theorem at the sample world, observed for two runs (25 hours are 90000000
  milliseconds), at the world whose token file is gone at the second run, and at the world
  whose proxy is not a URL, where the first batch run throws.
\<close>

theorem main_repeats_witness:
  "completes sample_library sample_config sample_world 0 \<and>
   completes sample_library sample_config sample_world 1 \<and>
   fst (main 2 sample_library sample_config sample_world 0 0) = Running \<and>
   nextRuns (snd (main 2 sample_library sample_config sample_world 0 0)) = [90000000, 90000000] \<and>
   \<not> readable (dataFile fading_world 1) \<and>
   \<not> completes sample_library sample_config fading_world 1 \<and>
   fst (main 2 sample_library sample_config fading_world 0 0) = Stopped 1 \<and>
   processAllAccounts sample_library sample_config bad_proxy_world 0 0 =
     (Thrown (TypeError ''Invalid URL''), [], 0) \<and>
   main 1 sample_library sample_config bad_proxy_world 0 0 = (Stopped 1, [])"
proof -
  note c = sample_completes
  then have h: "\<forall>r<2. completes sample_library sample_config sample_world (0 + r)" by simp
  have f: "\<not> readable (dataFile fading_world 1)"
    by (simp add: fading_world_def readable_def)
  have g: "\<not> completes sample_library sample_config fading_world 1"
    by (simp add: completes_def fading_world_def loadTokens_def)
  then have "\<exists>r<2. \<not> completes sample_library sample_config fading_world (0 + r)"
    by (intro exI [of _ 1]) simp
  then have s: "fst (main 2 sample_library sample_config fading_world 0 0) = Stopped 1"
    using main_repeats [of 2 sample_library sample_config fading_world 0 0 1] by simp
  have b: "main (Suc 0) sample_library sample_config bad_proxy_world 0 0 = (Stopped 1, [])"
    using main_repeats [where n = 0 and lib = sample_library and cfg = sample_config
        and w = bad_proxy_world and run = 0 and t = 0 and err = "TypeError ''Invalid URL''"
        and evs = "[]" and t' = 0]
      bad_proxy_batch [of 0]
    by (simp del: main.simps)
  show ?thesis
    using c [of 0] c [of 1] f g s b bad_proxy_batch [of 0]
      main_repeats [of 2 sample_library sample_config sample_world 0 0, THEN conjunct1, THEN mp, OF h]
    by (simp add: sample_config_def numeral_2_eq_2 del: main.simps)
qed

text \<open>
  Claim C9 as stated fails in its last part: where \<^verbatim>\<open>data.txt\<close> does not exist the batch run
  throws nothing, it ends the process itself, and the program has exited.
\<close>

theorem exit_without_throw_counterexample:
  "processAllAccounts sample_library sample_config absent_world 0 0 = (Exited 1, [], 0) \<and>
   main 1 sample_library sample_config absent_world 0 0 = (Stopped 1, [])"
  by (simp add: processAllAccounts_def loadTokens_def absent_world_def)

end
